theory Spec2Isabelle
  imports Main
begin

section \<open>JavaScript values and strings\<close>

text \<open>
  The front end of LifeQuery is TypeScript; its types are erased at run time, so the
  values that flow through the API client are whatever \<^verbatim>\<open>JSON.parse\<close> returns.
  A string is modelled as a list of 8-bit characters, one per UTF-16 code unit; code
  units above 255 are outside the model. A number is represented by its canonical
  rendering (\<^verbatim>\<open>Number.prototype.toString\<close>, which renders both zeros as
  \<^verbatim>\<open>0\<close>): the program only tests numbers for truthiness and converts them to text.
  The members of an object are kept in source order.
\<close>

datatype json =
    JNull
  | JBool bool
  | JNum string
  | JStr string
  | JArr "json list"
  | JObj "(string \<times> json) list"

text \<open>ToBoolean, as used by \<^verbatim>\<open>if (event)\<close> and by \<^verbatim>\<open>||\<close>.\<close>

fun truthy :: "json \<Rightarrow> bool" where
  "truthy JNull = False"
| "truthy (JBool b) = b"
| "truthy (JNum n) = (n \<noteq> ''0'')"
| "truthy (JStr s) = (s \<noteq> [])"
| "truthy (JArr xs) = True"
| "truthy (JObj fs) = True"

text \<open>
  Property read \<^verbatim>\<open>v.k\<close> on a value other than \<^verbatim>\<open>null\<close>, for the keys this
  program reads (none of them is inherited from a prototype); \<open>None\<close> is
  \<^verbatim>\<open>undefined\<close>. \<^verbatim>\<open>JSON.parse\<close> keeps the last of several members with the
  same key. Reading a property of \<^verbatim>\<open>null\<close> throws; the callers below treat that
  case themselves.
\<close>

fun js_prop :: "json \<Rightarrow> string \<Rightarrow> json option" where
  "js_prop (JObj fs) k = map_of (rev fs) k"
| "js_prop v k = None"

text \<open>ToBoolean of a value that may be \<^verbatim>\<open>undefined\<close>, and \<^verbatim>\<open>a || b\<close>.\<close>

definition truthy_opt :: "json option \<Rightarrow> bool" where
  "truthy_opt a = (case a of None \<Rightarrow> False | Some v \<Rightarrow> truthy v)"

definition js_or :: "json option \<Rightarrow> json \<Rightarrow> json" where
  "js_or a b = (case a of None \<Rightarrow> b | Some v \<Rightarrow> if truthy v then v else b)"

fun intersperse :: "'a \<Rightarrow> 'a list list \<Rightarrow> 'a list" where
  "intersperse sep [] = []"
| "intersperse sep [x] = x"
| "intersperse sep (x # y # ys) = x @ sep # intersperse sep (y # ys)"

text \<open>
  ToString on a parsed value: what \<^verbatim>\<open>new Error(v)\<close> stores as the message and what
  \<^verbatim>\<open>s + v\<close> appends. An array is joined with commas, \<^verbatim>\<open>null\<close> elements rendering
  as the empty string.
\<close>

fun js_String :: "json \<Rightarrow> string" where
  "js_String JNull = ''null''"
| "js_String (JBool b) = (if b then ''true'' else ''false'')"
| "js_String (JNum n) = n"
| "js_String (JStr s) = s"
| "js_String (JArr xs) =
     intersperse (CHR '','') (map (\<lambda>x. if x = JNull then [] else js_String x) xs)"
| "js_String (JObj fs) = ''[object Object]''"

definition js_String_opt :: "json option \<Rightarrow> string" where
  "js_String_opt v = (case v of None \<Rightarrow> ''undefined'' | Some x \<Rightarrow> js_String x)"

text \<open>White space and line terminators stripped by \<^verbatim>\<open>String.prototype.trim\<close>.\<close>

definition is_js_space :: "char \<Rightarrow> bool" where
  "is_js_space c \<longleftrightarrow>
     c \<in> set [CHR 0x09, CHR 0x0A, CHR 0x0B, CHR 0x0C, CHR 0x0D, CHR 0x20, CHR 0xA0]"

definition trim :: "string \<Rightarrow> string" where
  "trim s = rev (dropWhile is_js_space (rev (dropWhile is_js_space s)))"

definition startsWith :: "string \<Rightarrow> string \<Rightarrow> bool" where
  "startsWith s p \<longleftrightarrow> take (length p) s = p"

text \<open>
  \<^verbatim>\<open>s.split(sep)\<close> for a one-character separator. The result is never empty, so
  the last branch of the inner case is never taken.
\<close>

fun split :: "char \<Rightarrow> string \<Rightarrow> string list" where
  "split sep [] = [[]]"
| "split sep (c # cs) =
     (if c = sep then [] # split sep cs
      else (case split sep cs of
              part # parts \<Rightarrow> (c # part) # parts
            | [] \<Rightarrow> [[c]]))"

text \<open>Decimal rendering of a non-negative integer (a status code, a clock value).\<close>

fun decimal :: "nat \<Rightarrow> string" where
  "decimal n =
     (if n < 10 then [''0123456789'' ! n]
      else decimal (n div 10) @ [''0123456789'' ! (n mod 10)])"

declare decimal.simps [simp del]

section \<open>The platform's JSON parser\<close>

text \<open>
  \<^verbatim>\<open>JSON.parse\<close> belongs to the JavaScript engine, not to the repository. Every
  function below takes it as the parameter \<open>P\<close>: \<open>Inr v\<close> is the parsed value,
  \<open>Inl m\<close> a thrown SyntaxError with message \<open>m\<close>. The general theorems hold for
  an arbitrary \<open>P\<close>.
\<close>

type_synonym JSON_parse = "string \<Rightarrow> string + json"

text \<open>
  For evaluations at concrete inputs the parameter is instantiated with
  \<open>JSON_parse_fragment\<close>, a recursive-descent parser for the fragment of JSON made of
  objects, arrays, strings without escape sequences, the three literals and white
  space. On a text of that fragment, and on a text that is no JSON at all, it answers
  as \<^verbatim>\<open>JSON.parse\<close> does, up to the wording of the error message, which differs
  between engines; numbers and escape sequences are rejected, so it is used only away
  from them. The fuel is twice the length of the text: two nested calls never happen
  without a character being consumed.
\<close>

definition is_json_ws :: "char \<Rightarrow> bool" where
  "is_json_ws c \<longleftrightarrow> c \<in> set [CHR 0x20, CHR 0x09, CHR 0x0A, CHR 0x0D]"

definition skip_ws :: "string \<Rightarrow> string" where
  "skip_ws s = dropWhile is_json_ws s"

text \<open>The characters of a string after its opening quote, and the rest of the text.\<close>

fun parse_string_body :: "string \<Rightarrow> (string \<times> string) option" where
  "parse_string_body [] = None"
| "parse_string_body (c # cs) =
     (if c = CHR 0x22 then Some ([], cs)
      else if c = CHR 0x5C \<or> (of_char c :: nat) < 32 then None
      else map_option (apfst (Cons c)) (parse_string_body cs))"

fun parse_value :: "nat \<Rightarrow> string \<Rightarrow> (json \<times> string) option"
  and parse_elements :: "nat \<Rightarrow> string \<Rightarrow> (json list \<times> string) option"
  and parse_members :: "nat \<Rightarrow> string \<Rightarrow> ((string \<times> json) list \<times> string) option"
where
  "parse_value 0 s = None"
| "parse_value (Suc n) s =
     (case skip_ws s of
        [] \<Rightarrow> None
      | c # cs \<Rightarrow>
          if c = CHR 0x22 then map_option (apfst JStr) (parse_string_body cs)
          else if c = CHR ''['' then
            (if startsWith (skip_ws cs) '']'' then Some (JArr [], drop 1 (skip_ws cs))
             else map_option (apfst JArr) (parse_elements n cs))
          else if c = CHR ''{'' then
            (if startsWith (skip_ws cs) ''}'' then Some (JObj [], drop 1 (skip_ws cs))
             else map_option (apfst JObj) (parse_members n cs))
          else if startsWith (c # cs) ''true'' then Some (JBool True, drop 3 cs)
          else if startsWith (c # cs) ''false'' then Some (JBool False, drop 4 cs)
          else if startsWith (c # cs) ''null'' then Some (JNull, drop 3 cs)
          else None)"
| "parse_elements 0 s = None"
| "parse_elements (Suc n) s =
     (case parse_value n s of
        None \<Rightarrow> None
      | Some (v, r) \<Rightarrow>
          if startsWith (skip_ws r) '']'' then Some ([v], drop 1 (skip_ws r))
          else if startsWith (skip_ws r) '','' then
            map_option (apfst (Cons v)) (parse_elements n (drop 1 (skip_ws r)))
          else None)"
| "parse_members 0 s = None"
| "parse_members (Suc n) s =
     (if \<not> startsWith (skip_ws s) [CHR 0x22] then None
      else case parse_string_body (drop 1 (skip_ws s)) of
        None \<Rightarrow> None
      | Some (k, r) \<Rightarrow>
          if \<not> startsWith (skip_ws r) '':'' then None
          else case parse_value n (drop 1 (skip_ws r)) of
            None \<Rightarrow> None
          | Some (v, r') \<Rightarrow>
              if startsWith (skip_ws r') ''}'' then Some ([(k, v)], drop 1 (skip_ws r'))
              else if startsWith (skip_ws r') '','' then
                map_option (apfst (Cons (k, v))) (parse_members n (drop 1 (skip_ws r')))
              else None)"

definition JSON_parse_fragment :: JSON_parse where
  "JSON_parse_fragment s =
     (case parse_value (2 * length s + 2) s of
        None \<Rightarrow> Inl ''Unexpected token''
      | Some (v, r) \<Rightarrow> if skip_ws r = [] then Inr v else Inl ''Unexpected token'')"

section \<open>api/client.ts: parseSseLine\<close>

text \<open>The result \<open>JNull\<close> is the \<^verbatim>\<open>null\<close> the source returns.\<close>

definition parseSseLine :: "JSON_parse \<Rightarrow> string \<Rightarrow> json" where
  "parseSseLine P line =
     (if \<not> startsWith line ''data: '' then JNull
      else let data = trim (drop 6 line)
           in if data = ''[DONE]'' then JObj [(''type'', JStr ''done'')]
              else (case P data of Inr v \<Rightarrow> v | Inl m \<Rightarrow> JNull))"

section \<open>HTTP responses\<close>

text \<open>
  A thrown value is either an instance of \<^verbatim>\<open>Error\<close> (TypeError, SyntaxError and
  the AbortError of a cancelled request included), with its message, or something else.
\<close>

datatype js_exception = Error string | NonError

text \<open>
  What \<^verbatim>\<open>fetch\<close> delivers: a rejection, or a response with a status and a body.
  The body arrives as a list of chunks, each already decoded to text, and the reader
  then either reports the end of the stream or throws.
\<close>

datatype stream_end = EndOfStream | ReadError js_exception

record http_response =
  status :: nat
  body_chunks :: "string list"
  body_end :: stream_end

datatype fetch_result = Rejected js_exception | Response http_response

text \<open>\<^verbatim>\<open>res.ok\<close>: the status is in the range 200 to 299.\<close>

definition ok :: "http_response \<Rightarrow> bool" where
  "ok res \<longleftrightarrow> 200 \<le> status res \<and> status res \<le> 299"

text \<open>\<^verbatim>\<open>res.json()\<close>: read the whole body, then parse it.\<close>

definition res_json :: "JSON_parse \<Rightarrow> http_response \<Rightarrow> js_exception + json" where
  "res_json P res =
     (case body_end res of
        ReadError e \<Rightarrow> Inl e
      | EndOfStream \<Rightarrow>
          (case P (concat (body_chunks res)) of
             Inl m \<Rightarrow> Inl (Error m)
           | Inr v \<Rightarrow> Inr v))"

text \<open>
  The message of the error thrown on a response that is not ok, as computed by both
  \<^verbatim>\<open>apiFetch\<close> and \<^verbatim>\<open>apiStream\<close>:
  \<^verbatim>\<open>errorData.error || errorData.detail || errorMessage\<close> inside a
  \<^verbatim>\<open>try\<close> whose \<^verbatim>\<open>catch\<close> keeps the default (a body that does not parse, or the
  TypeError of reading a property of \<^verbatim>\<open>null\<close>), then \<^verbatim>\<open>new Error(errorMessage)\<close>,
  which converts the value to a string.
\<close>

definition errorMessage :: "JSON_parse \<Rightarrow> http_response \<Rightarrow> string" where
  "errorMessage P res =
     (let dflt = ''HTTP '' @ decimal (status res)
      in case res_json P res of
           Inl e \<Rightarrow> dflt
         | Inr errorData \<Rightarrow>
             if errorData = JNull then dflt
             else js_String
                    (js_or (js_prop errorData ''error'')
                       (js_or (js_prop errorData ''detail'') (JStr dflt))))"

section \<open>api/client.ts: apiFetch\<close>

definition apiFetch :: "JSON_parse \<Rightarrow> fetch_result \<Rightarrow> js_exception + json" where
  "apiFetch P fr =
     (case fr of
        Rejected e \<Rightarrow> Inl e
      | Response res \<Rightarrow>
          if \<not> ok res then Inl (Error (errorMessage P res))
          else res_json P res)"

section \<open>api/client.ts: apiStream\<close>

text \<open>
  An async generator is modelled by what a consumer that never breaks out of its
  \<^verbatim>\<open>for await\<close> observes: the list of yielded values, then a return or a throw.
\<close>

datatype completion = Returned | Threw js_exception

definition event_type :: "json \<Rightarrow> json option" where
  "event_type event = js_prop event ''type''"

definition is_done :: "json \<Rightarrow> bool" where
  "is_done event \<longleftrightarrow> event_type event = Some (JStr ''done'')"

text \<open>
  The inner \<^verbatim>\<open>for (const line of lines)\<close>: the events yielded, and whether the
  generator returned on a done event.
\<close>

fun apiStream_lines :: "JSON_parse \<Rightarrow> string list \<Rightarrow> json list \<times> bool" where
  "apiStream_lines P [] = ([], False)"
| "apiStream_lines P (line # lines) =
     (let event = parseSseLine P (trim line)
      in if truthy event then
           (if is_done event then ([event], True)
            else (case apiStream_lines P lines of
                    (events, finished) \<Rightarrow> (event # events, finished)))
         else apiStream_lines P lines)"

text \<open>
  The \<^verbatim>\<open>while (true)\<close> loop over \<^verbatim>\<open>reader.read()\<close>. The text left after the last
  newline stays in the buffer; it is dropped when the stream ends.
\<close>

fun apiStream_read ::
  "JSON_parse \<Rightarrow> string \<Rightarrow> string list \<Rightarrow> stream_end \<Rightarrow> json list \<times> completion" where
  "apiStream_read P buffer [] fin =
     ([], case fin of EndOfStream \<Rightarrow> Returned | ReadError e \<Rightarrow> Threw e)"
| "apiStream_read P buffer (chunk # rest) fin =
     (let parts = split (CHR 0x0A) (buffer @ chunk);
          yielded = apiStream_lines P (butlast parts)
      in if snd yielded then (fst yielded, Returned)
         else (case apiStream_read P (last parts) rest fin of
                 (events, c) \<Rightarrow> (fst yielded @ events, c)))"

definition apiStream :: "JSON_parse \<Rightarrow> fetch_result \<Rightarrow> json list \<times> completion" where
  "apiStream P fr =
     (case fr of
        Rejected e \<Rightarrow> ([], Threw e)
      | Response res \<Rightarrow>
          if \<not> ok res then ([], Threw (Error (errorMessage P res)))
          else apiStream_read P [] (body_chunks res) (body_end res))"

section \<open>api/data.ts: importJson\<close>

text \<open>The reader inlined in \<^verbatim>\<open>importJson\<close>: its own line loop, no call of parseSseLine.\<close>

fun importJson_lines :: "JSON_parse \<Rightarrow> string list \<Rightarrow> json list \<times> bool" where
  "importJson_lines P [] = ([], False)"
| "importJson_lines P (line # lines) =
     (let trimmed = trim line
      in if \<not> startsWith trimmed ''data: '' then importJson_lines P lines
         else let data = drop 6 trimmed
              in if data = ''[DONE]'' then ([], True)
                 else (case P data of
                         Inr event \<Rightarrow>
                           (case importJson_lines P lines of
                              (events, finished) \<Rightarrow> (event # events, finished))
                       | Inl m \<Rightarrow> importJson_lines P lines))"

fun importJson_read ::
  "JSON_parse \<Rightarrow> string \<Rightarrow> string list \<Rightarrow> stream_end \<Rightarrow> json list \<times> completion" where
  "importJson_read P buffer [] fin =
     ([], case fin of EndOfStream \<Rightarrow> Returned | ReadError e \<Rightarrow> Threw e)"
| "importJson_read P buffer (chunk # rest) fin =
     (let parts = split (CHR 0x0A) (buffer @ chunk);
          yielded = importJson_lines P (butlast parts)
      in if snd yielded then (fst yielded, Returned)
         else (case importJson_read P (last parts) rest fin of
                 (events, c) \<Rightarrow> (fst yielded @ events, c)))"

definition importJson :: "JSON_parse \<Rightarrow> fetch_result \<Rightarrow> json list \<times> completion" where
  "importJson P fr =
     (case fr of
        Rejected e \<Rightarrow> ([], Threw e)
      | Response res \<Rightarrow>
          if \<not> ok res then ([], Threw (Error (''HTTP '' @ decimal (status res))))
          else importJson_read P [] (body_chunks res) (body_end res))"

section \<open>api/chat.ts: streamChat\<close>

definition streamChat :: "JSON_parse \<Rightarrow> fetch_result \<Rightarrow> json list \<times> completion" where
  "streamChat P fr =
     (let stream = apiStream P fr
      in (filter (\<lambda>event. event_type event = Some (JStr ''token'') \<or>
                          event_type event = Some (JStr ''citations'') \<or>
                          event_type event = Some (JStr ''debug'')) (fst stream),
          snd stream))"

text \<open>
  The complete lines of a body, and the events they carry: every line with its
  newline received, parsed by \<open>parseSseLine\<close> after trimming, the lines that give no
  event left out.
\<close>

definition complete_lines :: "string list \<Rightarrow> string list" where
  "complete_lines chunks = butlast (split (CHR 0x0A) (concat chunks))"

definition carried_events :: "JSON_parse \<Rightarrow> string list \<Rightarrow> json list" where
  "carried_events P chunks =
     filter truthy (map (\<lambda>line. parseSseLine P (trim line)) (complete_lines chunks))"

text \<open>The text of a body made of the given lines, each ended by a newline.\<close>

definition sse_text :: "string list \<Rightarrow> string" where
  "sse_text lines = concat (map (\<lambda>line. line @ [CHR 0x0A]) lines)"

section \<open>Chat tab: messagesReducer\<close>

text \<open>
  A chat message. The \<^verbatim>\<open>id\<close> field is named \<open>msg_id\<close> here. The timestamp is
  a \<^verbatim>\<open>Date\<close>, kept as its milliseconds. \<^verbatim>\<open>citations\<close> is optional; it holds the
  \<^verbatim>\<open>citations\<close> member of a citations event as received (the cast to
  \<^verbatim>\<open>Citation[]\<close> does nothing at run time), \<open>None\<close> being \<^verbatim>\<open>undefined\<close>.
\<close>

datatype Role = User | Assistant

record Message =
  msg_id :: string
  role :: Role
  content :: string
  citations :: "json option"
  timestamp :: nat

datatype MessageAction =
    ADD_MESSAGE Message
  | APPEND_TOKEN string string
  | SET_CITATIONS string "json option"
  | SET_MESSAGES "Message list"

fun messagesReducer :: "Message list \<Rightarrow> MessageAction \<Rightarrow> Message list" where
  "messagesReducer state (ADD_MESSAGE message) = state @ [message]"
| "messagesReducer state (APPEND_TOKEN messageId token) =
     map (\<lambda>msg. if msg_id msg = messageId then msg\<lparr>content := content msg @ token\<rparr> else msg)
       state"
| "messagesReducer state (SET_CITATIONS messageId cs) =
     map (\<lambda>msg. if msg_id msg = messageId then msg\<lparr>citations := cs\<rparr> else msg) state"
| "messagesReducer state (SET_MESSAGES messages) = messages"

section \<open>Settings tab: handleSave\<close>

text \<open>
  \<^verbatim>\<open>localSettings\<close> is an object: \<^verbatim>\<open>Object.entries\<close> lists its members in order,
  each key once; a member may hold \<^verbatim>\<open>undefined\<close> (\<open>None\<close>). \<^verbatim>\<open>updateData\<close>
  starts empty and is assigned member by member.
\<close>

definition sensitive_fields :: "string list" where
  "sensitive_fields = [''telegram_api_hash'', ''openrouter_api_key'', ''chat_api_key'', ''api_key'']"

fun build_updateData ::
  "(string \<times> json option) list \<Rightarrow> (string \<rightharpoonup> json) \<Rightarrow> (string \<rightharpoonup> json)" where
  "build_updateData [] updateData = updateData"
| "build_updateData ((key, v) # entries) updateData =
     (case v of
        None \<Rightarrow> build_updateData entries updateData
      | Some val \<Rightarrow>
          if key \<in> set sensitive_fields then
            (if val \<noteq> JStr ''****'' \<and> val \<noteq> JStr [] then
               build_updateData entries (updateData(key \<mapsto> val))
             else build_updateData entries updateData)
          else build_updateData entries (updateData(key \<mapsto> val)))"

text \<open>
  The argument of \<^verbatim>\<open>saveSettings\<close>; \<open>None\<close> when \<^verbatim>\<open>handleSave\<close> returns at once
  because no settings have been loaded.
\<close>

definition handleSave ::
  "'s option \<Rightarrow> (string \<times> json option) list \<Rightarrow> (string \<rightharpoonup> json) option" where
  "handleSave settings localSettings =
     (case settings of
        None \<Rightarrow> None
      | Some s \<Rightarrow> Some (build_updateData localSettings Map.empty))"

section \<open>Data tab: filteredChats\<close>

record Chat =
  chat_id :: string
  chat_name :: string
  chat_type :: string
  message_count :: int
  last_message_at :: "string option"
  created_at :: "string option"
  included :: bool

datatype ChatsFilter = F_all | F_included | F_excluded

text \<open>\<^verbatim>\<open>toLowerCase\<close> on code units below 256: A to Z, and the accented capitals.\<close>

definition toLowerCase_unit :: "char \<Rightarrow> char" where
  "toLowerCase_unit c =
     (let n = (of_char c :: nat)
      in if (65 \<le> n \<and> n \<le> 90) \<or> (192 \<le> n \<and> n \<le> 222 \<and> n \<noteq> 215)
         then char_of (n + 32) else c)"

definition toLowerCase :: "string \<Rightarrow> string" where
  "toLowerCase s = map toLowerCase_unit s"

text \<open>\<^verbatim>\<open>s.includes(q)\<close>: \<open>q\<close> occurs in \<open>s\<close> as a contiguous substring.\<close>

fun str_includes :: "string \<Rightarrow> string \<Rightarrow> bool" where
  "str_includes [] q \<longleftrightarrow> q = []"
| "str_includes (c # cs) q \<longleftrightarrow> startsWith (c # cs) q \<or> str_includes cs q"

definition filteredChats :: "Chat list \<Rightarrow> ChatsFilter \<Rightarrow> string \<Rightarrow> Chat list" where
  "filteredChats chats chatsFilter searchQuery =
     filter (\<lambda>chat.
       let isSearchActive = length (trim searchQuery) > 0;
           matchesFilter =
             (chatsFilter = F_all \<and>
                (included chat \<or> message_count chat > 0 \<or> isSearchActive)) \<or>
             (chatsFilter = F_included \<and> included chat) \<or>
             (chatsFilter = F_excluded \<and> \<not> included chat);
           matchesSearch =
             str_includes (toLowerCase (chat_name chat)) (toLowerCase searchQuery) \<or>
             str_includes (chat_id chat) searchQuery
       in matchesFilter \<and> matchesSearch) chats"

section \<open>Chat tab: handleSend and handleStop\<close>

text \<open>
  The state of the chat tab that \<^verbatim>\<open>handleSend\<close> and \<^verbatim>\<open>handleStop\<close> touch.
  \<open>abortController\<close> says whether the state holds a controller (\<^verbatim>\<open>null\<close>
  otherwise); \<open>signal_aborted\<close> is the \<^verbatim>\<open>aborted\<close> flag of the signal of the
  controller that the running \<^verbatim>\<open>handleSend\<close> created, the object that both its
  local \<^verbatim>\<open>controller\<close> and the state refer to. The members of a debug event are kept
  as received.
\<close>

record DebugInfo =
  debug_messages :: "json option"
  userName :: "json option"
  currentDate :: "json option"
  systemPrompt :: string

record ChatTab =
  messages :: "Message list"
  input :: string
  isLoading :: bool
  abortController :: bool
  signal_aborted :: bool
  error :: "string option"
  debugInfo :: "DebugInfo option"

text \<open>
  The four clock reads of \<^verbatim>\<open>handleSend\<close>, in order: \<^verbatim>\<open>Date.now()\<close> and
  \<^verbatim>\<open>new Date()\<close> for the user message, then for the assistant placeholder.
\<close>

record clock_reads =
  now_user :: nat
  date_user :: nat
  now_assistant :: nat
  date_assistant :: nat

text \<open>
  Up to the \<^verbatim>\<open>try\<close>: \<open>None\<close> when \<^verbatim>\<open>handleSend\<close> returns at once, else the new
  state and \<^verbatim>\<open>assistantId\<close>.
\<close>

definition handleSend_begin :: "ChatTab \<Rightarrow> clock_reads \<Rightarrow> (ChatTab \<times> string) option" where
  "handleSend_begin st clk =
     (if trim (input st) = [] \<or> isLoading st then None
      else
        let userMsg = \<lparr>msg_id = decimal (now_user clk), role = User, content = input st,
                         citations = None, timestamp = date_user clk\<rparr>;
            st1 = st\<lparr>messages := messagesReducer (messages st) (ADD_MESSAGE userMsg),
                      input := [], isLoading := True, error := None, debugInfo := None\<rparr>;
            assistantId = decimal (now_assistant clk + 1);
            assistantMsg = \<lparr>msg_id = assistantId, role = Assistant, content = [],
                              citations = None, timestamp = date_assistant clk\<rparr>;
            st2 = st1\<lparr>messages := messagesReducer (messages st1) (ADD_MESSAGE assistantMsg),
                       abortController := True, signal_aborted := False\<rparr>
        in Some (st2, assistantId))"

text \<open>
  The body of the \<^verbatim>\<open>for await\<close> loop. \<^verbatim>\<open>msg.content + action.token\<close> converts the
  token to a string, which is done here where the token is read from the event.
\<close>

definition handleSend_event :: "string \<Rightarrow> ChatTab \<Rightarrow> json \<Rightarrow> ChatTab" where
  "handleSend_event assistantId st event =
     (if event_type event = Some (JStr ''token'') then
        st\<lparr>messages := messagesReducer (messages st)
              (APPEND_TOKEN assistantId (js_String_opt (js_prop event ''content'')))\<rparr>
      else if event_type event = Some (JStr ''debug'') then
        st\<lparr>debugInfo := Some \<lparr>debug_messages = js_prop event ''messages'',
                                 userName = js_prop event ''user_name'',
                                 currentDate = js_prop event ''current_date'',
                                 systemPrompt = []\<rparr>\<rparr>
      else if event_type event = Some (JStr ''citations'') then
        st\<lparr>messages := messagesReducer (messages st)
              (SET_CITATIONS assistantId (js_prop event ''citations''))\<rparr>
      else st)"

definition handleSend_catch :: "string \<Rightarrow> ChatTab \<Rightarrow> js_exception \<Rightarrow> ChatTab" where
  "handleSend_catch assistantId st err =
     (if signal_aborted st then st
      else
        let errorMessage = (case err of Error m \<Rightarrow> m | NonError \<Rightarrow> ''Failed to get response'')
        in st\<lparr>error := Some errorMessage,
               messages := messagesReducer (messages st)
                 (APPEND_TOKEN assistantId (''[Error: '' @ errorMessage @ '']''))\<rparr>)"

definition handleSend_finally :: "ChatTab \<Rightarrow> ChatTab" where
  "handleSend_finally st = st\<lparr>isLoading := False, abortController := False\<rparr>"

definition handleStop :: "ChatTab \<Rightarrow> ChatTab" where
  "handleStop st =
     (if abortController st
      then st\<lparr>signal_aborted := True, isLoading := False, abortController := False\<rparr>
      else st)"

text \<open>
  One run of \<^verbatim>\<open>handleSend\<close>. The network's answer is \<open>fr\<close>. \<open>stop = Some k\<close> means
  that the user presses Stop, so that \<^verbatim>\<open>handleStop\<close> runs, when \<open>k\<close> events of the
  stream have been handled; \<open>None\<close>, or a \<open>k\<close> beyond the events of the stream, means
  that Stop is not pressed during the run.
\<close>

definition handleSend ::
  "JSON_parse \<Rightarrow> ChatTab \<Rightarrow> clock_reads \<Rightarrow> fetch_result \<Rightarrow> nat option \<Rightarrow> ChatTab" where
  "handleSend P st clk fr stop =
     (case handleSend_begin st clk of
        None \<Rightarrow> st
      | Some (st1, assistantId) \<Rightarrow>
          let stream = streamChat P fr;
              events = fst stream;
              st2 = (case stop of
                       None \<Rightarrow> foldl (handleSend_event assistantId) st1 events
                     | Some k \<Rightarrow>
                         if k \<le> length events then
                           foldl (handleSend_event assistantId)
                             (handleStop (foldl (handleSend_event assistantId) st1 (take k events)))
                             (drop k events)
                         else foldl (handleSend_event assistantId) st1 events);
              st3 = (case snd stream of
                       Returned \<Rightarrow> st2
                     | Threw err \<Rightarrow> handleSend_catch assistantId st2 err)
          in handleSend_finally st3)"

section \<open>Back end: vector store, reindex and retrieval\<close>

text \<open>
  Modelled from the spec: the vector store adapter, the ingest pipeline and the
  retrieval engine are Python modules that are not among the sources (the architecture
  note names \<^verbatim>\<open>chroma.py\<close>); every definition of this section follows sections 3,
  4.2, 4.6, 4.7 and 5 of the specification. A chunk is reduced to the fields that reach
  the vector store.
\<close>

record chunk =
  chunk_id :: string
  chunk_chat :: string
  chunk_text :: string

text \<open>
  Modelled from the spec: a vector record (section 3), keyed by the chunk id and
  carrying the chat id for filtering. The vector type and the embedding model are left
  open.
\<close>

record 'v vector_record =
  rec_chunk_id :: string
  rec_chat_id :: string
  embedding :: 'v

text \<open>
  Modelled from the spec: the store directory holds a live collection and possibly a
  temp collection (section 6); \<open>None\<close> means that no collection has that name.
\<close>

record 'v vector_store =
  live :: "'v vector_record list option"
  temp :: "'v vector_record list option"

text \<open>
  Modelled from the spec: \<^verbatim>\<open>upsert(records[])\<close> of section 4.2 on one collection;
  a record replaces the stored record with the same chunk id.
\<close>

definition upsert :: "'v vector_record list \<Rightarrow> 'v vector_record list \<Rightarrow> 'v vector_record list" where
  "upsert records coll =
     filter (\<lambda>r. rec_chunk_id r \<notin> set (map rec_chunk_id records)) coll @ records"

text \<open>
  Modelled from the spec: \<^verbatim>\<open>query(embedding, k, where)\<close> of section 4.2, up to
  \<open>k\<close> records that satisfy the predicate, nearest first. The cosine distance is a
  floating-point quantity; it is the parameter \<open>dist\<close>, into any linear order.
\<close>

definition query ::
  "('v \<Rightarrow> 'v \<Rightarrow> 'd::linorder) \<Rightarrow> 'v vector_record list \<Rightarrow> 'v \<Rightarrow> nat \<Rightarrow>
   ('v vector_record \<Rightarrow> bool) \<Rightarrow> 'v vector_record list" where
  "query dist coll e k wh = take k (sort_key (\<lambda>r. dist e (embedding r)) (filter wh coll))"

text \<open>
  Modelled from the spec: the two actions that make up the swap, retiring the live
  collection and promoting the temp collection under the live name.
\<close>

definition delete_live :: "'v vector_store \<Rightarrow> 'v vector_store" where
  "delete_live st = st\<lparr>live := None\<rparr>"

definition rename_temp :: "'v vector_store \<Rightarrow> 'v vector_store" where
  "rename_temp st = st\<lparr>live := temp st, temp := None\<rparr>"

text \<open>
  Modelled from the spec: \<^verbatim>\<open>swap_from_temp\<close> of section 4.2. It is atomic: the store
  is serialized for the swap (section 5), so no reader runs between its two actions and
  the swap is one step. Without a temp collection there is nothing to promote.
\<close>

definition swap_from_temp :: "'v vector_store \<Rightarrow> 'v vector_store" where
  "swap_from_temp st = (if temp st = None then st else rename_temp (delete_live st))"

text \<open>
  Modelled from the spec: the steps of a reindex that the vector store sees (sections
  4.2 and 4.6): a fresh temp collection is created, any stale one being dropped; the
  vectors are written into it batch by batch; the swap is invoked.
\<close>

datatype 'v reindex_step =
    Create_temp
  | Upsert_temp "'v vector_record list"
  | Swap_from_temp

fun step :: "'v reindex_step \<Rightarrow> 'v vector_store \<Rightarrow> 'v vector_store" where
  "step Create_temp st = st\<lparr>temp := Some []\<rparr>"
| "step (Upsert_temp records) st =
     (case temp st of
        None \<Rightarrow> st
      | Some coll \<Rightarrow> st\<lparr>temp := Some (upsert records coll)\<rparr>)"
| "step Swap_from_temp st = swap_from_temp st"

text \<open>Modelled from the spec: the store after a sequence of steps.\<close>

definition run :: "'v reindex_step list \<Rightarrow> 'v vector_store \<Rightarrow> 'v vector_store" where
  "run steps st = foldl (\<lambda>s a. step a s) st steps"

text \<open>
  Modelled from the spec: the vector record of a chunk under an embedding model, and a
  successful reindex of the chunks, given in the batches in which they are embedded
  (section 4.6); the durable store is not touched.
\<close>

definition to_record :: "(string \<Rightarrow> 'v) \<Rightarrow> chunk \<Rightarrow> 'v vector_record" where
  "to_record emb c =
     \<lparr>rec_chunk_id = chunk_id c, rec_chat_id = chunk_chat c, embedding = emb (chunk_text c)\<rparr>"


text \<open>
  Modelled from the spec: steps 1 to 3 of \<^verbatim>\<open>retrieve\<close> (section 4.7), the records
  that the live collection returns for the embedded query under the inclusion mask,
  the list \<open>chats_in\<close> of the ids of the included chats. No included chat gives the
  empty result, and so does a store error, here a missing
  live collection. Ordering by date and assembly under the token cap (steps 4 to 6) work
  on these records and are not modelled.
\<close>

definition retrieve ::
  "('v \<Rightarrow> 'v \<Rightarrow> 'd::linorder) \<Rightarrow> 'v vector_store \<Rightarrow> string list \<Rightarrow> 'v \<Rightarrow> nat \<Rightarrow>
   'v vector_record list" where
  "retrieve dist st chats_in e top_k =
     (if chats_in = [] then []
      else case live st of
             None \<Rightarrow> []
           | Some coll \<Rightarrow> query dist coll e top_k (\<lambda>r. rec_chat_id r \<in> set chats_in))"

section \<open>Example inputs\<close>

text \<open>
  Concrete responses at which the theorems are evaluated. The chat body arrives in
  three chunks that cut a line in two, and carries a reasoning event and a token after
  the terminator.
\<close>

definition chat_response :: http_response where
  "chat_response =
     \<lparr>status = 200,
      body_chunks =
        [''data: {\"type\":\"debug\",\"messages\":[]}\<newline>\<newline>data: {\"type\":\"reas'',
         ''oning\",\"content\":\"hm\"}\<newline>\<newline>data: {\"type\":\"token\",\"content\":\"A\"}\<newline>'',
         ''\<newline>data: [DONE]\<newline>\<newline>data: {\"type\":\"token\",\"content\":\"B\"}\<newline>''],
      body_end = EndOfStream\<rparr>"

definition chat_lines_before_DONE :: "string list" where
  "chat_lines_before_DONE =
     [''data: {\"type\":\"debug\",\"messages\":[]}'', [],
      ''data: {\"type\":\"reasoning\",\"content\":\"hm\"}'', [],
      ''data: {\"type\":\"token\",\"content\":\"A\"}'', []]"

definition chat_lines_after_DONE :: "string list" where
  "chat_lines_after_DONE = [[], ''data: {\"type\":\"token\",\"content\":\"B\"}'']"

text \<open>An import stream that reports completion twice before the terminator.\<close>

definition import_response :: http_response where
  "import_response =
     \<lparr>status = 200,
      body_chunks =
        [''data: {\"type\":\"done\"}\<newline>\<newline>data: {\"type\":\"done\"}\<newline>\<newline>data: [DONE]\<newline>\<newline>''],
      body_end = EndOfStream\<rparr>"


text \<open>A response whose whole body is the given text.\<close>

definition text_response :: "nat \<Rightarrow> string \<Rightarrow> http_response" where
  "text_response code body = \<lparr>status = code, body_chunks = [body], body_end = EndOfStream\<rparr>"

definition broken_response :: http_response where
  "broken_response =
     \<lparr>status = 500, body_chunks = [''{\"error\":''], body_end = ReadError (Error ''network error'')\<rparr>"

text \<open>An excluded chat without messages, two messages that share an id, a settings form.\<close>

definition hidden_chat :: Chat where
  "hidden_chat =
     \<lparr>chat_id = ''42'', chat_name = ''Alice'', chat_type = ''private'', message_count = 0,
      last_message_at = None, created_at = None, included = False\<rparr>"

definition twin_messages :: "Message list" where
  "twin_messages =
     [\<lparr>msg_id = ''7'', role = User, content = ''hi'', citations = None, timestamp = 7\<rparr>,
      \<lparr>msg_id = ''7'', role = Assistant, content = [], citations = None, timestamp = 8\<rparr>]"

definition two_messages :: "Message list" where
  "two_messages =
     [\<lparr>msg_id = ''7'', role = User, content = ''hi'', citations = None, timestamp = 7\<rparr>,
      \<lparr>msg_id = ''8'', role = Assistant, content = [], citations = None, timestamp = 8\<rparr>]"

definition settings_form :: "(string \<times> json option) list" where
  "settings_form =
     [(''chat_model'', Some (JStr ''qwen3'')),
      (''chat_api_key'', Some (JStr ''****'')),
      (''api_key'', Some (JStr ''s3cret'')),
      (''top_k'', Some (JNum ''5'')),
      (''noise_filter_keywords'', None)]"

text \<open>
  A chat tab with a question typed in, the clock, and a chat stream that breaks after
  one token.
\<close>

definition asking :: ChatTab where
  "asking =
     \<lparr>messages = [], input = ''who?'', isLoading = False, abortController = False,
      signal_aborted = False, error = None, debugInfo = None\<rparr>"

definition clock :: clock_reads where
  "clock = \<lparr>now_user = 41, date_user = 41, now_assistant = 41, date_assistant = 42\<rparr>"

definition failing_chat :: http_response where
  "failing_chat =
     \<lparr>status = 200,
      body_chunks =
        [''data: {\"type\":\"citations\",\"citations\":[]}\<newline>\<newline>data: {\"type\":\"token\",\"content\":\"A\"}\<newline>\<newline>''],
      body_end = ReadError (Error ''network error'')\<rparr>"

text \<open>The state once the question has been sent, and the events of the broken stream.\<close>

definition asked :: ChatTab where
  "asked =
     \<lparr>messages =
        [\<lparr>msg_id = ''41'', role = User, content = ''who?'', citations = None, timestamp = 41\<rparr>,
         \<lparr>msg_id = ''42'', role = Assistant, content = [], citations = None, timestamp = 42\<rparr>],
      input = [], isLoading = True, abortController = True, signal_aborted = False,
      error = None, debugInfo = None\<rparr>"

definition failing_events :: "json list" where
  "failing_events =
     [JObj [(''type'', JStr ''citations''), (''citations'', JArr [])],
      JObj [(''type'', JStr ''token''), (''content'', JStr ''A'')]]"







section \<open>Splitting text into lines\<close>

lemma split_not_Nil [simp]: "split sep s \<noteq> []"
  by (induction s) (auto split: list.splits)

lemma split_Cons_other:
  "c \<noteq> sep \<Longrightarrow> split sep (c # cs) = (c # hd (split sep cs)) # tl (split sep cs)"
  by (cases "split sep cs") auto

lemma split_append:
  "split sep (a @ b) =
     butlast (split sep a) @ (last (split sep a) @ hd (split sep b)) # tl (split sep b)"
proof (induction a)
  case Nil
  show ?case by simp
next
  case (Cons c cs)
  show ?case
  proof (cases "c = sep")
    case True
    with Cons show ?thesis by simp
  next
    case False
    obtain p ps where sp: "split sep cs = p # ps"
      by (cases "split sep cs") auto
    show ?thesis
    proof (cases ps)
      case Nil
      with sp False Cons.IH show ?thesis
        by (simp add: split_Cons_other del: split.simps)
    next
      case (Cons q qs)
      with sp False Cons.IH show ?thesis
        by (simp add: split_Cons_other del: split.simps)
    qed
  qed
qed

lemma split_parts_no_sep: "p \<in> set (split sep s) \<Longrightarrow> sep \<notin> set p"
proof (induction s arbitrary: p)
  case Nil
  then show ?case by simp
next
  case (Cons c cs)
  obtain q qs where sp: "split sep cs = q # qs"
    by (cases "split sep cs") auto
  from Cons sp show ?case
    by (cases "c = sep") auto
qed

lemma split_no_sep: "sep \<notin> set p \<Longrightarrow> split sep p = [p]"
  by (induction p) auto

lemma last_split_no_sep: "sep \<notin> set (last (split sep s))"
  using split_parts_no_sep [of "last (split sep s)" sep s] by simp

lemma butlast_split_append:
  "butlast (split sep (a @ b)) =
     butlast (split sep a) @ butlast (split sep (last (split sep a) @ b))"
proof -
  let ?l = "last (split sep a)"
  have "split sep ?l = [?l]"
    by (rule split_no_sep) (rule last_split_no_sep)
  then have "split sep (?l @ b) = (?l @ hd (split sep b)) # tl (split sep b)"
    using split_append [of sep ?l b] by simp
  then show ?thesis
    using split_append [of sep a b] by (simp add: butlast_append)
qed

lemma split_lines_text:
  "\<forall>x \<in> set xs. sep \<notin> set x \<Longrightarrow>
     split sep (concat (map (\<lambda>x. x @ [sep]) xs)) = xs @ [[]]"
proof (induction xs)
  case Nil
  show ?case by simp
next
  case (Cons x xs)
  then have "split sep x = [x]" by (simp add: split_no_sep)
  with Cons show ?case
    using split_append [of sep x "sep # concat (map (\<lambda>x. x @ [sep]) xs)"] by simp
qed

section \<open>The line loops and the buffered readers\<close>

lemma apiStream_lines_append:
  "apiStream_lines P (xs @ ys) =
     (if snd (apiStream_lines P xs) then apiStream_lines P xs
      else (fst (apiStream_lines P xs) @ fst (apiStream_lines P ys),
            snd (apiStream_lines P ys)))"
  by (induction xs) (auto simp: Let_def split: prod.splits)

lemma importJson_lines_append:
  "importJson_lines P (xs @ ys) =
     (if snd (importJson_lines P xs) then importJson_lines P xs
      else (fst (importJson_lines P xs) @ fst (importJson_lines P ys),
            snd (importJson_lines P ys)))"
  by (induction xs) (auto simp: Let_def split: prod.splits sum.splits)

text \<open>Reading chunk by chunk yields what one pass over all complete lines yields.\<close>

lemma apiStream_read_lines:
  "CHR 0x0A \<notin> set buffer \<Longrightarrow>
     fst (apiStream_read P buffer chunks fin) =
     fst (apiStream_lines P (butlast (split (CHR 0x0A) (buffer @ concat chunks))))"
proof (induction chunks arbitrary: buffer)
  case Nil
  then show ?case by (simp add: split_no_sep)
next
  case (Cons chunk rest)
  let ?parts = "split (CHR 0x0A) (buffer @ chunk)"
  have nosep: "CHR 0x0A \<notin> set (last ?parts)"
    by (rule last_split_no_sep)
  have lines: "butlast (split (CHR 0x0A) (buffer @ concat (chunk # rest))) =
      butlast ?parts @ butlast (split (CHR 0x0A) (last ?parts @ concat rest))"
    using butlast_split_append [of "CHR 0x0A" "buffer @ chunk" "concat rest"] by simp
  show ?case
    unfolding lines apiStream_lines_append
    using Cons.IH [OF nosep]
    by (simp add: Let_def case_prod_beta)
qed

lemma importJson_read_lines:
  "CHR 0x0A \<notin> set buffer \<Longrightarrow>
     fst (importJson_read P buffer chunks fin) =
     fst (importJson_lines P (butlast (split (CHR 0x0A) (buffer @ concat chunks))))"
proof (induction chunks arbitrary: buffer)
  case Nil
  then show ?case by (simp add: split_no_sep)
next
  case (Cons chunk rest)
  let ?parts = "split (CHR 0x0A) (buffer @ chunk)"
  have nosep: "CHR 0x0A \<notin> set (last ?parts)"
    by (rule last_split_no_sep)
  have lines: "butlast (split (CHR 0x0A) (buffer @ concat (chunk # rest))) =
      butlast ?parts @ butlast (split (CHR 0x0A) (last ?parts @ concat rest))"
    using butlast_split_append [of "CHR 0x0A" "buffer @ chunk" "concat rest"] by simp
  show ?case
    unfolding lines importJson_lines_append
    using Cons.IH [OF nosep]
    by (simp add: Let_def case_prod_beta)
qed

text \<open>The line loop of apiStream stops at, and includes, the first done event.\<close>

lemma apiStream_lines_events:
  "fst (apiStream_lines P lines) =
     takeWhile (\<lambda>e. \<not> is_done e)
       (filter truthy (map (\<lambda>line. parseSseLine P (trim line)) lines)) @
     take 1 (dropWhile (\<lambda>e. \<not> is_done e)
       (filter truthy (map (\<lambda>line. parseSseLine P (trim line)) lines)))"
  by (induction lines) (auto simp: Let_def split: prod.splits)

lemma apiStream_read_events:
  "fst (apiStream_read P [] chunks fin) =
     takeWhile (\<lambda>e. \<not> is_done e) (carried_events P chunks) @
     take 1 (dropWhile (\<lambda>e. \<not> is_done e) (carried_events P chunks))"
  by (simp add: apiStream_read_lines apiStream_lines_events carried_events_def
      complete_lines_def)

lemma done_line: "parseSseLine P ''data: [DONE]'' = JObj [(''type'', JStr ''done'')]"
  by (simp add: parseSseLine_def startsWith_def trim_def is_js_space_def)

lemma is_done_done [simp]: "is_done (JObj [(''type'', JStr ''done'')])"
  by (simp add: is_done_def event_type_def)

lemma apiStream_lines_cut:
  "trim l = ''data: [DONE]'' \<Longrightarrow>
     apiStream_lines P (pre @ l # post) = apiStream_lines P (pre @ [l])"
  by (simp add: apiStream_lines_append [of P pre] done_line)

lemma importJson_lines_cut:
  "trim l = ''data: [DONE]'' \<Longrightarrow>
     importJson_lines P (pre @ l # post) = importJson_lines P (pre @ [l])"
  by (simp add: importJson_lines_append [of P pre] startsWith_def)

section \<open>Events of a whole response\<close>

lemma complete_lines_sse_text:
  "\<forall>x \<in> set xs. CHR 0x0A \<notin> set x \<Longrightarrow> complete_lines [sse_text xs] = xs"
  by (simp add: complete_lines_def sse_text_def split_lines_text)

lemma complete_lines_no_newline:
  "x \<in> set (complete_lines chunks) \<Longrightarrow> CHR 0x0A \<notin> set x"
  unfolding complete_lines_def
  by (meson in_set_butlastD split_parts_no_sep)

lemma apiStream_ok:
  "ok res \<Longrightarrow> fst (apiStream P (Response res)) =
     fst (apiStream_lines P (complete_lines (body_chunks res)))"
  by (simp add: apiStream_def apiStream_read_lines complete_lines_def)

lemma importJson_ok:
  "ok res \<Longrightarrow> fst (importJson P (Response res)) =
     fst (importJson_lines P (complete_lines (body_chunks res)))"
  by (simp add: importJson_def importJson_read_lines complete_lines_def)

lemma apiStream_events:
  "fst (apiStream P fr) = [] \<or>
   (\<exists>res. fr = Response res \<and> ok res \<and>
      fst (apiStream P fr) =
        takeWhile (\<lambda>e. \<not> is_done e) (carried_events P (body_chunks res)) @
        take 1 (dropWhile (\<lambda>e. \<not> is_done e) (carried_events P (body_chunks res))))"
  by (cases fr) (auto simp: apiStream_def apiStream_read_events)

lemma done_last_shape:
  assumes "es = takeWhile (\<lambda>e. \<not> is_done e) xs @ take 1 ys"
  shows "length (filter is_done es) \<le> 1"
    and "\<forall>i < length es. is_done (es ! i) \<longrightarrow> Suc i = length es"
proof -
  let ?tw = "takeWhile (\<lambda>e. \<not> is_done e) xs"
  have nodone: "filter is_done ?tw = []"
    by (auto simp: filter_empty_conv dest: set_takeWhileD)
  have "length (filter is_done (take 1 ys)) \<le> 1"
    by (metis length_filter_le length_take min.cobounded2 order_trans)
  with nodone show "length (filter is_done es) \<le> 1"
    by (simp add: assms)
  show "\<forall>i < length es. is_done (es ! i) \<longrightarrow> Suc i = length es"
  proof (intro allI impI)
    fix i assume i: "i < length es" and d: "is_done (es ! i)"
    have "\<not> i < length ?tw"
    proof
      assume lt: "i < length ?tw"
      then have "es ! i = ?tw ! i" by (simp add: assms nth_append)
      moreover have "?tw ! i \<in> set ?tw" using lt by simp
      ultimately show False using d by (metis set_takeWhileD)
    qed
    moreover have "length es \<le> Suc (length ?tw)"
      by (simp add: assms)
    ultimately show "Suc i = length es" using i by simp
  qed
qed

section \<open>The update payload\<close>

lemma build_updateData_lookup:
  "distinct (map fst entries) \<Longrightarrow>
     build_updateData entries updateData key =
       (case map_of entries key of
          Some (Some val) \<Rightarrow>
            if key \<in> set sensitive_fields \<and> (val = JStr ''****'' \<or> val = JStr [])
            then updateData key else Some val
        | _ \<Rightarrow> updateData key)"
proof (induction entries arbitrary: updateData)
  case Nil
  show ?case by simp
next
  case (Cons entry entries)
  obtain k v where entry: "entry = (k, v)" by (cases entry)
  from Cons.prems entry have d: "distinct (map fst entries)" and k: "k \<notin> fst ` set entries"
    by auto
  from k have nk: "map_of entries k = None"
    by (simp add: map_of_eq_None_iff)
  show ?case
  proof (cases "key = k")
    case True
    with entry nk Cons.IH [OF d] show ?thesis
      by (simp split: option.splits)
  next
    case False
    with entry show ?thesis
      by (auto simp: Cons.IH [OF d] split: option.splits)
  qed
qed

section \<open>The event loop of handleSend\<close>

lemma handleSend_event_fields [simp]:
  "error (handleSend_event aid st ev) = error st"
  "signal_aborted (handleSend_event aid st ev) = signal_aborted st"
  "abortController (handleSend_event aid st ev) = abortController st"
  "isLoading (handleSend_event aid st ev) = isLoading st"
  by (simp_all add: handleSend_event_def)

lemma foldl_event_fields:
  "error (foldl (handleSend_event aid) st evs) = error st \<and>
   signal_aborted (foldl (handleSend_event aid) st evs) = signal_aborted st \<and>
   abortController (foldl (handleSend_event aid) st evs) = abortController st"
  by (induction evs arbitrary: st) simp_all

text \<open>The messages after the loop depend on the messages before it only.\<close>

lemma foldl_event_messages_cong:
  "messages st = messages st' \<Longrightarrow>
     messages (foldl (handleSend_event aid) st evs) =
     messages (foldl (handleSend_event aid) st' evs)"
proof (induction evs arbitrary: st st')
  case Nil
  then show ?case by simp
next
  case (Cons ev evs)
  from Cons.prems have "messages (handleSend_event aid st ev) = messages (handleSend_event aid st' ev)"
    by (simp add: handleSend_event_def)
  then have "messages (foldl (handleSend_event aid) (handleSend_event aid st ev) evs) =
      messages (foldl (handleSend_event aid) (handleSend_event aid st' ev) evs)"
    by (rule Cons.IH)
  then show ?case by simp
qed

lemma handleStop_messages [simp]: "messages (handleStop st) = messages st"
  by (simp add: handleStop_def)

lemma handleStop_error [simp]: "error (handleStop st) = error st"
  by (simp add: handleStop_def)

text \<open>Pressing Stop in the middle of the loop does not change the messages it builds.\<close>

lemma stopped_loop_messages:
  "messages (foldl (handleSend_event aid)
      (handleStop (foldl (handleSend_event aid) st (take k evs))) (drop k evs)) =
   messages (foldl (handleSend_event aid) st evs)"
proof -
  have "messages (foldl (handleSend_event aid)
      (handleStop (foldl (handleSend_event aid) st (take k evs))) (drop k evs)) =
    messages (foldl (handleSend_event aid) (foldl (handleSend_event aid) st (take k evs))
      (drop k evs))"
    by (rule foldl_event_messages_cong) simp
  also have "\<dots> = messages (foldl (handleSend_event aid) st (take k evs @ drop k evs))"
    by (simp only: foldl_append)
  finally show ?thesis by simp
qed

text \<open>
  While the assistant placeholder is the last message, the loop appends the text of
  every token event to it and keeps it last.
\<close>

lemma event_loop_last:
  "messages st \<noteq> [] \<Longrightarrow> msg_id (last (messages st)) = aid \<Longrightarrow>
     messages (foldl (handleSend_event aid) st evs) \<noteq> [] \<and>
     msg_id (last (messages (foldl (handleSend_event aid) st evs))) = aid \<and>
     role (last (messages (foldl (handleSend_event aid) st evs))) = role (last (messages st)) \<and>
     content (last (messages (foldl (handleSend_event aid) st evs))) =
       content (last (messages st)) @
       concat (map (\<lambda>ev. js_String_opt (js_prop ev ''content''))
         (filter (\<lambda>ev. event_type ev = Some (JStr ''token'')) evs))"
proof (induction evs arbitrary: st)
  case Nil
  then show ?case by simp
next
  case (Cons ev evs)
  let ?st = "handleSend_event aid st ev"
  have ne: "messages ?st \<noteq> []"
    using Cons.prems by (simp add: handleSend_event_def)
  have id: "msg_id (last (messages ?st)) = aid"
    using Cons.prems by (simp add: handleSend_event_def last_map)
  have rl: "role (last (messages ?st)) = role (last (messages st))"
    using Cons.prems by (simp add: handleSend_event_def last_map)
  have ct: "content (last (messages ?st)) =
      content (last (messages st)) @
      (if event_type ev = Some (JStr ''token'') then js_String_opt (js_prop ev ''content'') else [])"
    using Cons.prems by (simp add: handleSend_event_def last_map)
  show ?case
    using Cons.IH [OF ne id] rl ct by simp
qed

lemma handleSend_begin_last:
  "handleSend_begin st clk = Some (st1, aid) \<Longrightarrow>
     messages st1 \<noteq> [] \<and> msg_id (last (messages st1)) = aid \<and>
     role (last (messages st1)) = Assistant \<and> content (last (messages st1)) = [] \<and>
     error st1 = None \<and> abortController st1 \<and> \<not> signal_aborted st1"
  by (auto simp: handleSend_begin_def Let_def split: if_splits)

section \<open>The steps of a reindex\<close>

lemma run_Nil [simp]: "run [] st = st"
  by (simp add: run_def)

lemma run_Cons [simp]: "run (a # as) st = run as (step a st)"
  by (simp add: run_def)





lemma rec_chunk_id_to_record [simp]: "rec_chunk_id (to_record emb c) = chunk_id c"
  by (simp add: to_record_def)

lemma rec_chat_id_to_record [simp]: "rec_chat_id (to_record emb c) = chunk_chat c"
  by (simp add: to_record_def)




text \<open>
  The architecture note lists the swap as a delete of the live collection followed by a
  rename of the temp collection. A reader admitted between the two would find no live
  collection; the theorem on the swap rests on the store being serialized for it.
\<close>

lemma retrieve_after_delete_live: "retrieve dist (delete_live st) chats_in e top_k = []"
  by (simp add: retrieve_def delete_live_def)

section \<open>Verified properties\<close>

subsection \<open>parseSseLine\<close>

text \<open>
  C5. \<^verbatim>\<open>parseSseLine\<close> returns \<^verbatim>\<open>null\<close> on a line that does not start with
  \<^verbatim>\<open>data: \<close>; on a line whose payload trims to \<^verbatim>\<open>[DONE]\<close> it returns the
  object \<^verbatim>\<open>{type: "done"}\<close>; on any other payload it returns what the parser
  returns, and \<^verbatim>\<open>null\<close> when the parser throws.
\<close>

theorem parseSseLine_cases:
  "(\<not> startsWith line ''data: '' \<longrightarrow> parseSseLine P line = JNull) \<and>
   (startsWith line ''data: '' \<and> trim (drop 6 line) = ''[DONE]'' \<longrightarrow>
      parseSseLine P line = JObj [(''type'', JStr ''done'')]) \<and>
   (startsWith line ''data: '' \<and> trim (drop 6 line) \<noteq> ''[DONE]'' \<and>
      P (trim (drop 6 line)) = Inr v \<longrightarrow> parseSseLine P line = v) \<and>
   (startsWith line ''data: '' \<and> trim (drop 6 line) \<noteq> ''[DONE]'' \<and>
      P (trim (drop 6 line)) = Inl m \<longrightarrow> parseSseLine P line = JNull)"
  by (simp add: parseSseLine_def Let_def)

theorem parseSseLine_cases_witness:
  "parseSseLine JSON_parse_fragment ''event: ping'' = JNull \<and>
   parseSseLine JSON_parse_fragment ''data:  [DONE] '' = JObj [(''type'', JStr ''done'')] \<and>
   parseSseLine JSON_parse_fragment ''data: {\"type\":\"token\",\"content\":\"Hi\"}'' =
     JObj [(''type'', JStr ''token''), (''content'', JStr ''Hi'')] \<and>
   parseSseLine JSON_parse_fragment ''data: {\"type\":'' = JNull"
proof -
  have a: "\<not> startsWith ''event: ping'' ''data: ''"
    by (simp add: startsWith_def)
  have b: "startsWith ''data:  [DONE] '' ''data: '' \<and> trim (drop 6 ''data:  [DONE] '') = ''[DONE]''"
    by (simp add: startsWith_def trim_def is_js_space_def)
  have c: "startsWith ''data: {\"type\":\"token\",\"content\":\"Hi\"}'' ''data: '' \<and>
      trim (drop 6 ''data: {\"type\":\"token\",\"content\":\"Hi\"}'') \<noteq> ''[DONE]'' \<and>
      JSON_parse_fragment (trim (drop 6 ''data: {\"type\":\"token\",\"content\":\"Hi\"}'')) =
        Inr (JObj [(''type'', JStr ''token''), (''content'', JStr ''Hi'')])"
    by code_simp
  have d: "startsWith ''data: {\"type\":'' ''data: '' \<and>
      trim (drop 6 ''data: {\"type\":'') \<noteq> ''[DONE]'' \<and>
      JSON_parse_fragment (trim (drop 6 ''data: {\"type\":'')) = Inl ''Unexpected token''"
    by code_simp
  note t1 = parseSseLine_cases [of "''event: ping''" JSON_parse_fragment, THEN conjunct1, THEN mp, OF a]
  note t2 = parseSseLine_cases [of "''data:  [DONE] ''" JSON_parse_fragment,
      THEN conjunct2, THEN conjunct1, THEN mp, OF b]
  note t3 = parseSseLine_cases [of "''data: {\"type\":\"token\",\"content\":\"Hi\"}''" JSON_parse_fragment
        "JObj [(''type'', JStr ''token''), (''content'', JStr ''Hi'')]",
      THEN conjunct2, THEN conjunct2, THEN conjunct1, THEN mp, OF c]
  note t4 = parseSseLine_cases [of "''data: {\"type\":''" JSON_parse_fragment _ "''Unexpected token''",
      THEN conjunct2, THEN conjunct2, THEN conjunct2, THEN mp, OF d]
  show ?thesis
    by (intro conjI t1 t2 t3 t4)
qed

subsection \<open>The done event of the SSE generators\<close>

text \<open>
  C4, as amended. For every response, the sequence yielded by \<^verbatim>\<open>apiStream\<close> holds
  at most one event of type done, and a done event is its last element. In both
  \<^verbatim>\<open>apiStream\<close> and the reader of \<^verbatim>\<open>importJson\<close>, nothing that follows a
  \<^verbatim>\<open>data: [DONE]\<close> line is yielded: the body cut right after that line gives the
  same events.
\<close>

theorem apiStream_done_last:
  "length (filter is_done (fst (apiStream P fr))) \<le> 1 \<and>
   (\<forall>i < length (fst (apiStream P fr)).
      is_done (fst (apiStream P fr) ! i) \<longrightarrow> Suc i = length (fst (apiStream P fr))) \<and>
   (ok res \<and> complete_lines (body_chunks res) = pre @ l # post \<and>
    trim l = ''data: [DONE]'' \<longrightarrow>
      fst (apiStream P (Response res)) =
        fst (apiStream P (Response (res\<lparr>body_chunks := [sse_text (pre @ [l])]\<rparr>))) \<and>
      fst (importJson P (Response res)) =
        fst (importJson P (Response (res\<lparr>body_chunks := [sse_text (pre @ [l])]\<rparr>))))"
proof (intro conjI impI)
  have shape: "\<exists>xs ys. fst (apiStream P fr) = takeWhile (\<lambda>e. \<not> is_done e) xs @ take 1 ys"
  proof (cases "fst (apiStream P fr) = []")
    case True
    then have "fst (apiStream P fr) = takeWhile (\<lambda>e. \<not> is_done e) [] @ take 1 []"
      by simp
    then show ?thesis by blast
  next
    case False
    then show ?thesis using apiStream_events [of P fr] by blast
  qed
  then obtain xs ys where
    es: "fst (apiStream P fr) = takeWhile (\<lambda>e. \<not> is_done e) xs @ take 1 ys"
    by blast
  show "length (filter is_done (fst (apiStream P fr))) \<le> 1"
    by (rule done_last_shape(1) [OF es])
  show "\<forall>i < length (fst (apiStream P fr)).
      is_done (fst (apiStream P fr) ! i) \<longrightarrow> Suc i = length (fst (apiStream P fr))"
    by (rule done_last_shape(2) [OF es])
next
  assume h: "ok res \<and> complete_lines (body_chunks res) = pre @ l # post \<and>
    trim l = ''data: [DONE]''"
  let ?cut = "res\<lparr>body_chunks := [sse_text (pre @ [l])]\<rparr>"
  have okc: "ok ?cut" using h by (simp add: ok_def)
  have "\<forall>x \<in> set (pre @ [l]). CHR 0x0A \<notin> set x"
    using h complete_lines_no_newline [of _ "body_chunks res"] by auto
  then have cl: "complete_lines (body_chunks ?cut) = pre @ [l]"
    using complete_lines_sse_text by simp
  have "fst (apiStream P (Response res)) = fst (apiStream_lines P (pre @ l # post))"
    using h apiStream_ok [of res P] by simp
  also have "\<dots> = fst (apiStream_lines P (pre @ [l]))"
    using h apiStream_lines_cut [of l P pre post] by simp
  also have "\<dots> = fst (apiStream P (Response ?cut))"
    using apiStream_ok [OF okc, of P] cl by simp
  finally show "fst (apiStream P (Response res)) = fst (apiStream P (Response ?cut))" .
  have "fst (importJson P (Response res)) = fst (importJson_lines P (pre @ l # post))"
    using h importJson_ok [of res P] by simp
  also have "\<dots> = fst (importJson_lines P (pre @ [l]))"
    using h importJson_lines_cut [of l P pre post] by simp
  also have "\<dots> = fst (importJson P (Response ?cut))"
    using importJson_ok [OF okc, of P] cl by simp
  finally show "fst (importJson P (Response res)) = fst (importJson P (Response ?cut))" .
qed

theorem apiStream_done_last_witness:
  "3 < length (fst (apiStream JSON_parse_fragment (Response chat_response))) \<and>
   is_done (fst (apiStream JSON_parse_fragment (Response chat_response)) ! 3) \<and>
   Suc 3 = length (fst (apiStream JSON_parse_fragment (Response chat_response))) \<and>
   ok chat_response \<and>
   complete_lines (body_chunks chat_response) =
     chat_lines_before_DONE @ ''data: [DONE]'' # chat_lines_after_DONE \<and>
   trim ''data: [DONE]'' = ''data: [DONE]'' \<and>
   fst (apiStream JSON_parse_fragment (Response chat_response)) =
     fst (apiStream JSON_parse_fragment (Response (chat_response
       \<lparr>body_chunks := [sse_text (chat_lines_before_DONE @ [''data: [DONE]''])]\<rparr>))) \<and>
   fst (importJson JSON_parse_fragment (Response chat_response)) =
     fst (importJson JSON_parse_fragment (Response (chat_response
       \<lparr>body_chunks := [sse_text (chat_lines_before_DONE @ [''data: [DONE]''])]\<rparr>)))"
proof -
  let ?es = "fst (apiStream JSON_parse_fragment (Response chat_response))"
  have i: "3 < length ?es"
    by code_simp
  have d: "is_done (?es ! 3)"
    by code_simp
  have h: "ok chat_response \<and>
      complete_lines (body_chunks chat_response) =
        chat_lines_before_DONE @ ''data: [DONE]'' # chat_lines_after_DONE \<and>
      trim ''data: [DONE]'' = ''data: [DONE]''"
    by code_simp
  note t = apiStream_done_last [where P = JSON_parse_fragment and fr = "Response chat_response"
      and res = chat_response and pre = chat_lines_before_DONE and l = "''data: [DONE]''"
      and post = chat_lines_after_DONE]
  note last = t [THEN conjunct2, THEN conjunct1, THEN spec, THEN mp, OF i, THEN mp, OF d]
  note cut = t [THEN conjunct2, THEN conjunct2, THEN mp, OF h]
  show ?thesis
    by (intro conjI i d last h [THEN conjunct1] h [THEN conjunct2, THEN conjunct1]
        h [THEN conjunct2, THEN conjunct2] cut [THEN conjunct1] cut [THEN conjunct2])
qed

text \<open>
  The claim as written fails for \<^verbatim>\<open>importJson\<close>: it yields every parsed event,
  also a second one of type done.
\<close>

theorem importJson_two_done_counterexample:
  "\<not> length (filter is_done (fst (importJson JSON_parse_fragment (Response import_response)))) \<le> 1"
  by code_simp

subsection \<open>streamChat\<close>

text \<open>
  C1, as amended. On an ok response \<^verbatim>\<open>streamChat\<close> yields, in arrival order,
  exactly the events that arrive before the first done event and whose type is
  \<^verbatim>\<open>token\<close>, \<^verbatim>\<open>citations\<close> or \<^verbatim>\<open>debug\<close>; it never yields an event of type
  \<^verbatim>\<open>reasoning\<close>.
\<close>

theorem streamChat_yields:
  "(ok res \<longrightarrow>
      fst (streamChat P (Response res)) =
        filter (\<lambda>e. event_type e = Some (JStr ''token'') \<or>
                    event_type e = Some (JStr ''citations'') \<or>
                    event_type e = Some (JStr ''debug''))
          (takeWhile (\<lambda>e. \<not> is_done e) (carried_events P (body_chunks res)))) \<and>
   (\<forall>e \<in> set (fst (streamChat P fr)). event_type e \<noteq> Some (JStr ''reasoning''))"
proof (intro conjI impI)
  assume "ok res"
  let ?evs = "carried_events P (body_chunks res)"
  let ?w = "\<lambda>e. event_type e = Some (JStr ''token'') \<or>
                    event_type e = Some (JStr ''citations'') \<or>
                    event_type e = Some (JStr ''debug'')"
  have "filter ?w (take 1 (dropWhile (\<lambda>e. \<not> is_done e) ?evs)) = []"
  proof (cases "dropWhile (\<lambda>e. \<not> is_done e) ?evs")
    case Nil
    then show ?thesis by (simp del: dropWhile_eq_Nil_conv)
  next
    case (Cons d ds)
    then have "is_done d" by (metis hd_dropWhile list.distinct(1) list.sel(1))
    with Cons show ?thesis by (simp add: is_done_def)
  qed
  with \<open>ok res\<close> show "fst (streamChat P (Response res)) =
      filter ?w (takeWhile (\<lambda>e. \<not> is_done e) ?evs)"
    by (simp add: streamChat_def Let_def apiStream_def apiStream_read_events)
next
  show "\<forall>e \<in> set (fst (streamChat P fr)). event_type e \<noteq> Some (JStr ''reasoning'')"
    by (auto simp: streamChat_def Let_def)
qed

theorem streamChat_yields_witness:
  "ok chat_response \<and>
   fst (streamChat JSON_parse_fragment (Response chat_response)) =
     filter (\<lambda>e. event_type e = Some (JStr ''token'') \<or>
                 event_type e = Some (JStr ''citations'') \<or>
                 event_type e = Some (JStr ''debug''))
       (takeWhile (\<lambda>e. \<not> is_done e)
          (carried_events JSON_parse_fragment (body_chunks chat_response))) \<and>
   JObj [(''type'', JStr ''token''), (''content'', JStr ''A'')]
     \<in> set (fst (streamChat JSON_parse_fragment (Response chat_response))) \<and>
   event_type (JObj [(''type'', JStr ''token''), (''content'', JStr ''A'')]) \<noteq>
     Some (JStr ''reasoning'')"
proof -
  have h: "ok chat_response"
    by code_simp
  have m: "JObj [(''type'', JStr ''token''), (''content'', JStr ''A'')]
     \<in> set (fst (streamChat JSON_parse_fragment (Response chat_response)))"
    by code_simp
  note t = streamChat_yields [where P = JSON_parse_fragment and res = chat_response
      and fr = "Response chat_response"]
  show ?thesis
    by (intro conjI h m t [THEN conjunct1, THEN mp, OF h] t [THEN conjunct2, THEN bspec, OF m])
qed

text \<open>
  The claim as written fails: a reasoning event that arrives before the terminator is
  not yielded.
\<close>

theorem streamChat_reasoning_counterexample:
  "event_type (JObj [(''type'', JStr ''reasoning''), (''content'', JStr ''hm'')]) =
     Some (JStr ''reasoning'') \<and>
   JObj [(''type'', JStr ''reasoning''), (''content'', JStr ''hm'')]
     \<in> set (takeWhile (\<lambda>e. \<not> is_done e)
          (carried_events JSON_parse_fragment (body_chunks chat_response))) \<and>
   JObj [(''type'', JStr ''reasoning''), (''content'', JStr ''hm'')]
     \<notin> set (fst (streamChat JSON_parse_fragment (Response chat_response)))"
  by code_simp

subsection \<open>apiFetch\<close>

text \<open>
  C7, as amended. On a response whose status is not 2xx \<^verbatim>\<open>apiFetch\<close> always throws
  an Error; its message is the body's \<^verbatim>\<open>error\<close> member when that is truthy (for a
  string: not empty), else the \<^verbatim>\<open>detail\<close> member when that is truthy, else
  \<^verbatim>\<open>HTTP <status>\<close>, which is also the message when the body cannot be read or
  parsed. On a 2xx response it returns the parsed body when the body parses, and throws
  the parser's error when it does not.
\<close>

theorem apiFetch_outcomes:
  "(ok res \<and> body_end res = EndOfStream \<and> P (concat (body_chunks res)) = Inr v \<longrightarrow>
      apiFetch P (Response res) = Inr v) \<and>
   (ok res \<and> body_end res = EndOfStream \<and> P (concat (body_chunks res)) = Inl m \<longrightarrow>
      apiFetch P (Response res) = Inl (Error m)) \<and>
   (\<not> ok res \<longrightarrow> isl (apiFetch P (Response res))) \<and>
   (\<not> ok res \<and> body_end res = EndOfStream \<and> P (concat (body_chunks res)) = Inr body \<and>
    js_prop body ''error'' = Some e \<and> truthy e \<longrightarrow>
      apiFetch P (Response res) = Inl (Error (js_String e))) \<and>
   (\<not> ok res \<and> body_end res = EndOfStream \<and> P (concat (body_chunks res)) = Inr body \<and>
    \<not> truthy_opt (js_prop body ''error'') \<and> js_prop body ''detail'' = Some d \<and> truthy d \<longrightarrow>
      apiFetch P (Response res) = Inl (Error (js_String d))) \<and>
   (\<not> ok res \<and> body_end res = EndOfStream \<and> P (concat (body_chunks res)) = Inr body \<and>
    \<not> truthy_opt (js_prop body ''error'') \<and> \<not> truthy_opt (js_prop body ''detail'') \<longrightarrow>
      apiFetch P (Response res) = Inl (Error (''HTTP '' @ decimal (status res)))) \<and>
   (\<not> ok res \<and> body_end res = EndOfStream \<and> P (concat (body_chunks res)) = Inl m \<longrightarrow>
      apiFetch P (Response res) = Inl (Error (''HTTP '' @ decimal (status res)))) \<and>
   (\<not> ok res \<and> body_end res = ReadError x \<longrightarrow>
      apiFetch P (Response res) = Inl (Error (''HTTP '' @ decimal (status res))))"
proof (intro conjI impI)
  show "\<not> ok res \<Longrightarrow> isl (apiFetch P (Response res))"
    by (simp add: apiFetch_def)
qed (auto simp: apiFetch_def res_json_def errorMessage_def Let_def js_or_def truthy_opt_def
      split: option.splits)


theorem apiFetch_outcomes_witness:
  "apiFetch JSON_parse_fragment (Response (text_response 200 ''{\"ok\":true}'')) =
     Inr (JObj [(''ok'', JBool True)]) \<and>
   apiFetch JSON_parse_fragment (Response (text_response 204 [])) =
     Inl (Error ''Unexpected token'') \<and>
   isl (apiFetch JSON_parse_fragment (Response (text_response 500 ''{}''))) \<and>
   apiFetch JSON_parse_fragment
       (Response (text_response 500 ''{\"error\":\"boom\",\"detail\":\"x\"}'')) =
     Inl (Error (js_String (JStr ''boom''))) \<and>
   apiFetch JSON_parse_fragment
       (Response (text_response 422 ''{\"error\":\"\",\"detail\":\"bad\"}'')) =
     Inl (Error (js_String (JStr ''bad''))) \<and>
   apiFetch JSON_parse_fragment (Response (text_response 404 ''{}'')) =
     Inl (Error (''HTTP '' @ decimal (status (text_response 404 ''{}'')))) \<and>
   apiFetch JSON_parse_fragment (Response (text_response 502 ''<html>'')) =
     Inl (Error (''HTTP '' @ decimal (status (text_response 502 ''<html>'')))) \<and>
   apiFetch JSON_parse_fragment (Response broken_response) =
     Inl (Error (''HTTP '' @ decimal (status broken_response)))"
proof -
  let ?P = JSON_parse_fragment
  let ?r1 = "text_response 200 ''{\"ok\":true}''"
  let ?r2 = "text_response 204 []"
  let ?r3 = "text_response 500 ''{}''"
  let ?r4 = "text_response 500 ''{\"error\":\"boom\",\"detail\":\"x\"}''"
  let ?r5 = "text_response 422 ''{\"error\":\"\",\"detail\":\"bad\"}''"
  let ?r6 = "text_response 404 ''{}''"
  let ?r7 = "text_response 502 ''<html>''"
  let ?b4 = "JObj [(''error'', JStr ''boom''), (''detail'', JStr ''x'')]"
  let ?b5 = "JObj [(''error'', JStr []), (''detail'', JStr ''bad'')]"
  have h1: "ok ?r1 \<and> body_end ?r1 = EndOfStream \<and>
      ?P (concat (body_chunks ?r1)) = Inr (JObj [(''ok'', JBool True)])"
    by code_simp
  have h2: "ok ?r2 \<and> body_end ?r2 = EndOfStream \<and>
      ?P (concat (body_chunks ?r2)) = Inl ''Unexpected token''"
    by code_simp
  have h3: "\<not> ok ?r3"
    by code_simp
  have h4: "\<not> ok ?r4 \<and> body_end ?r4 = EndOfStream \<and> ?P (concat (body_chunks ?r4)) = Inr ?b4 \<and>
      js_prop ?b4 ''error'' = Some (JStr ''boom'') \<and> truthy (JStr ''boom'')"
    by code_simp
  have h5: "\<not> ok ?r5 \<and> body_end ?r5 = EndOfStream \<and> ?P (concat (body_chunks ?r5)) = Inr ?b5 \<and>
      \<not> truthy_opt (js_prop ?b5 ''error'') \<and> js_prop ?b5 ''detail'' = Some (JStr ''bad'') \<and>
      truthy (JStr ''bad'')"
    by code_simp
  have h6: "\<not> ok ?r6 \<and> body_end ?r6 = EndOfStream \<and> ?P (concat (body_chunks ?r6)) = Inr (JObj []) \<and>
      \<not> truthy_opt (js_prop (JObj []) ''error'') \<and> \<not> truthy_opt (js_prop (JObj []) ''detail'')"
    by code_simp
  have h7: "\<not> ok ?r7 \<and> body_end ?r7 = EndOfStream \<and>
      ?P (concat (body_chunks ?r7)) = Inl ''Unexpected token''"
    by code_simp
  have h8: "\<not> ok broken_response \<and> body_end broken_response = ReadError (Error ''network error'')"
    by code_simp
  note c1 = apiFetch_outcomes [where P = ?P and res = ?r1, THEN conjunct1, THEN mp, OF h1]
  note c2 = apiFetch_outcomes [where P = ?P and res = ?r2,
      THEN conjunct2, THEN conjunct1, THEN mp, OF h2]
  note c3 = apiFetch_outcomes [where P = ?P and res = ?r3,
      THEN conjunct2, THEN conjunct2, THEN conjunct1, THEN mp, OF h3]
  note c4 = apiFetch_outcomes [where P = ?P and res = ?r4,
      THEN conjunct2, THEN conjunct2, THEN conjunct2, THEN conjunct1, THEN mp, OF h4]
  note c5 = apiFetch_outcomes [where P = ?P and res = ?r5,
      THEN conjunct2, THEN conjunct2, THEN conjunct2, THEN conjunct2, THEN conjunct1,
      THEN mp, OF h5]
  note c6 = apiFetch_outcomes [where P = ?P and res = ?r6,
      THEN conjunct2, THEN conjunct2, THEN conjunct2, THEN conjunct2, THEN conjunct2,
      THEN conjunct1, THEN mp, OF h6]
  note c7 = apiFetch_outcomes [where P = ?P and res = ?r7,
      THEN conjunct2, THEN conjunct2, THEN conjunct2, THEN conjunct2, THEN conjunct2,
      THEN conjunct2, THEN conjunct1, THEN mp, OF h7]
  note c8 = apiFetch_outcomes [where P = ?P and res = broken_response,
      THEN conjunct2, THEN conjunct2, THEN conjunct2, THEN conjunct2, THEN conjunct2,
      THEN conjunct2, THEN conjunct2, THEN mp, OF h8]
  show ?thesis
    by (intro conjI c1 c2 c3 c4 c5 c6 c7 c8)
qed

text \<open>
  The claim as written fails: a 204 response has an empty body, the parser throws on
  it, and \<^verbatim>\<open>apiFetch\<close> throws although the status is 2xx.
\<close>

theorem apiFetch_2xx_throws_counterexample:
  "ok (text_response 204 []) \<and>
   isl (apiFetch JSON_parse_fragment (Response (text_response 204 [])))"
  by code_simp

subsection \<open>handleSave\<close>

text \<open>
  C2. In the payload that \<^verbatim>\<open>handleSave\<close> hands to \<^verbatim>\<open>saveSettings\<close>, a sensitive
  key whose local value is the sentinel \<^verbatim>\<open>****\<close> has no entry, and every defined
  entry of a key that is not sensitive is present with its local value.
\<close>

theorem handleSave_payload:
  "handleSave settings localSettings = Some updateData \<and> distinct (map fst localSettings) \<longrightarrow>
     (\<forall>key \<in> set sensitive_fields.
        (key, Some (JStr ''****'')) \<in> set localSettings \<longrightarrow> updateData key = None) \<and>
     (\<forall>key val. (key, Some val) \<in> set localSettings \<and> key \<notin> set sensitive_fields \<longrightarrow>
        updateData key = Some val)"
proof (intro impI, elim conjE)
  assume hs: "handleSave settings localSettings = Some updateData"
    and d: "distinct (map fst localSettings)"
  from hs have u: "updateData = build_updateData localSettings Map.empty"
    by (auto simp: handleSave_def split: option.splits)
  show "(\<forall>key \<in> set sensitive_fields.
        (key, Some (JStr ''****'')) \<in> set localSettings \<longrightarrow> updateData key = None) \<and>
     (\<forall>key val. (key, Some val) \<in> set localSettings \<and> key \<notin> set sensitive_fields \<longrightarrow>
        updateData key = Some val)"
    unfolding u using d by (auto simp: build_updateData_lookup)
qed

theorem handleSave_payload_witness:
  "handleSave (Some settings_form) settings_form =
     Some (build_updateData settings_form Map.empty) \<and>
   distinct (map fst settings_form) \<and>
   ''chat_api_key'' \<in> set sensitive_fields \<and>
   (''chat_api_key'', Some (JStr ''****'')) \<in> set settings_form \<and>
   build_updateData settings_form Map.empty ''chat_api_key'' = None \<and>
   (''top_k'', Some (JNum ''5'')) \<in> set settings_form \<and> ''top_k'' \<notin> set sensitive_fields \<and>
   build_updateData settings_form Map.empty ''top_k'' = Some (JNum ''5'')"
proof -
  have h: "handleSave (Some settings_form) settings_form =
      Some (build_updateData settings_form Map.empty) \<and> distinct (map fst settings_form)"
    by (simp add: handleSave_def settings_form_def)
  have s: "''chat_api_key'' \<in> set sensitive_fields"
    by (simp add: sensitive_fields_def)
  have m: "(''chat_api_key'', Some (JStr ''****'')) \<in> set settings_form"
    by (simp add: settings_form_def)
  have n: "(''top_k'', Some (JNum ''5'')) \<in> set settings_form \<and> ''top_k'' \<notin> set sensitive_fields"
    by (simp add: settings_form_def sensitive_fields_def)
  note t = handleSave_payload [where settings = "Some settings_form"
      and localSettings = settings_form
      and updateData = "build_updateData settings_form Map.empty", THEN mp, OF h]
  note a = t [THEN conjunct1, THEN bspec, OF s, THEN mp, OF m]
  note b = t [THEN conjunct2, THEN spec, THEN spec, THEN mp, OF n]
  show ?thesis
    by (intro conjI h [THEN conjunct1] h [THEN conjunct2] s m a n [THEN conjunct1]
        n [THEN conjunct2] b)
qed

subsection \<open>filteredChats\<close>

text \<open>
  C10. A chat that is excluded and has no messages is left out under the filter
  \<^verbatim>\<open>all\<close> while the search query is empty or white space; it is listed only under
  \<^verbatim>\<open>all\<close> with a query that is not blank, or under \<^verbatim>\<open>excluded\<close>.
\<close>

theorem filteredChats_hides_empty_excluded:
  "\<not> included chat \<and> message_count chat = 0 \<longrightarrow>
     (trim searchQuery = [] \<longrightarrow> chat \<notin> set (filteredChats chats F_all searchQuery)) \<and>
     (chat \<in> set (filteredChats chats chatsFilter searchQuery') \<longrightarrow>
        (chatsFilter = F_all \<and> trim searchQuery' \<noteq> []) \<or> chatsFilter = F_excluded)"
  by (cases chatsFilter) (auto simp: filteredChats_def Let_def)

theorem filteredChats_hides_empty_excluded_witness:
  "\<not> included hidden_chat \<and> message_count hidden_chat = 0 \<and>
   trim [CHR 0x20, CHR 0x09] = [] \<and>
   hidden_chat \<notin> set (filteredChats [hidden_chat] F_all [CHR 0x20, CHR 0x09]) \<and>
   hidden_chat \<in> set (filteredChats [hidden_chat] F_all ''ali'') \<and>
   ((F_all = F_all \<and> trim ''ali'' \<noteq> []) \<or> F_all = F_excluded)"
proof -
  have h: "\<not> included hidden_chat \<and> message_count hidden_chat = 0"
    by (simp add: hidden_chat_def)
  have q: "trim [CHR 0x20, CHR 0x09] = []"
    by (simp add: trim_def is_js_space_def)
  have v: "hidden_chat \<in> set (filteredChats [hidden_chat] F_all ''ali'')"
    by code_simp
  note t = filteredChats_hides_empty_excluded [where chat = hidden_chat
      and chats = "[hidden_chat]" and searchQuery = "[CHR 0x20, CHR 0x09]"
      and chatsFilter = F_all and searchQuery' = "''ali''", THEN mp, OF h]
  show ?thesis
    by (intro conjI h [THEN conjunct1] h [THEN conjunct2] q
        t [THEN conjunct1, THEN mp, OF q] v t [THEN conjunct2, THEN mp, OF v])
qed

subsection \<open>messagesReducer\<close>

text \<open>
  C9, as amended. For an \<^verbatim>\<open>APPEND_TOKEN\<close> or \<^verbatim>\<open>SET_CITATIONS\<close> action the reducer
  keeps the length and the order of the list, changes exactly the messages whose id is
  the action's \<^verbatim>\<open>messageId\<close> (appending the token, respectively replacing the
  citations) and leaves every other message as it is. When the ids of the list are
  pairwise distinct at most one position changes, and when no message has that id the
  result is the input.
\<close>

theorem messagesReducer_frame:
  "(action = APPEND_TOKEN messageId token \<and> change = (\<lambda>msg. msg\<lparr>content := content msg @ token\<rparr>)) \<or>
   (action = SET_CITATIONS messageId cs \<and> change = (\<lambda>msg. msg\<lparr>citations := cs\<rparr>)) \<longrightarrow>
     length (messagesReducer state action) = length state \<and>
     map msg_id (messagesReducer state action) = map msg_id state \<and>
     (\<forall>i < length state.
        messagesReducer state action ! i =
          (if msg_id (state ! i) = messageId then change (state ! i) else state ! i)) \<and>
     (distinct (map msg_id state) \<longrightarrow>
        (\<forall>i j. i < length state \<and> j < length state \<and>
           messagesReducer state action ! i \<noteq> state ! i \<and>
           messagesReducer state action ! j \<noteq> state ! j \<longrightarrow> i = j)) \<and>
     (messageId \<notin> set (map msg_id state) \<longrightarrow> messagesReducer state action = state)"
proof (intro impI)
  assume a: "(action = APPEND_TOKEN messageId token \<and> change = (\<lambda>msg. msg\<lparr>content := content msg @ token\<rparr>)) \<or>
   (action = SET_CITATIONS messageId cs \<and> change = (\<lambda>msg. msg\<lparr>citations := cs\<rparr>))"
  then have m: "messagesReducer state action =
      map (\<lambda>msg. if msg_id msg = messageId then change msg else msg) state"
    by auto
  have ids: "\<And>msg. msg_id (change msg) = msg_id msg"
    using a by auto
  have len: "length (messagesReducer state action) = length state"
    by (simp add: m)
  have order: "map msg_id (messagesReducer state action) = map msg_id state"
    by (simp add: m ids)
  have pos: "\<forall>i < length state.
        messagesReducer state action ! i =
          (if msg_id (state ! i) = messageId then change (state ! i) else state ! i)"
    by (simp add: m)
  have one: "distinct (map msg_id state) \<longrightarrow>
        (\<forall>i j. i < length state \<and> j < length state \<and>
           messagesReducer state action ! i \<noteq> state ! i \<and>
           messagesReducer state action ! j \<noteq> state ! j \<longrightarrow> i = j)"
  proof (intro impI allI, elim conjE)
    fix i j
    assume d: "distinct (map msg_id state)" and i: "i < length state" and j: "j < length state"
      and ci: "messagesReducer state action ! i \<noteq> state ! i"
      and cj: "messagesReducer state action ! j \<noteq> state ! j"
    from pos i ci have "msg_id (state ! i) = messageId" by (auto split: if_splits)
    moreover from pos j cj have "msg_id (state ! j) = messageId" by (auto split: if_splits)
    ultimately have "map msg_id state ! i = map msg_id state ! j"
      using i j by simp
    moreover have "i < length (map msg_id state)" "j < length (map msg_id state)"
      using i j by simp_all
    ultimately show "i = j"
      using d nth_eq_iff_index_eq by blast
  qed
  have none: "messageId \<notin> set (map msg_id state) \<longrightarrow> messagesReducer state action = state"
  proof
    assume "messageId \<notin> set (map msg_id state)"
    then have "\<And>msg. msg \<in> set state \<Longrightarrow>
        (if msg_id msg = messageId then change msg else msg) = msg"
      by auto
    then show "messagesReducer state action = state"
      unfolding m by (rule map_idI)
  qed
  from len order pos one none
  show "length (messagesReducer state action) = length state \<and>
     map msg_id (messagesReducer state action) = map msg_id state \<and>
     (\<forall>i < length state.
        messagesReducer state action ! i =
          (if msg_id (state ! i) = messageId then change (state ! i) else state ! i)) \<and>
     (distinct (map msg_id state) \<longrightarrow>
        (\<forall>i j. i < length state \<and> j < length state \<and>
           messagesReducer state action ! i \<noteq> state ! i \<and>
           messagesReducer state action ! j \<noteq> state ! j \<longrightarrow> i = j)) \<and>
     (messageId \<notin> set (map msg_id state) \<longrightarrow> messagesReducer state action = state)"
    by blast
qed

theorem messagesReducer_frame_witness:
  "length (messagesReducer two_messages (APPEND_TOKEN ''8'' ''Hi'')) = length two_messages \<and>
   map msg_id (messagesReducer two_messages (APPEND_TOKEN ''8'' ''Hi'')) =
     map msg_id two_messages \<and>
   1 < length two_messages \<and>
   messagesReducer two_messages (APPEND_TOKEN ''8'' ''Hi'') ! 1 =
     (if msg_id (two_messages ! 1) = ''8''
      then (two_messages ! 1)\<lparr>content := content (two_messages ! 1) @ ''Hi''\<rparr>
      else two_messages ! 1) \<and>
   distinct (map msg_id two_messages) \<and>
   messagesReducer two_messages (APPEND_TOKEN ''8'' ''Hi'') ! 1 \<noteq> two_messages ! 1 \<and>
   (1::nat) = 1 \<and>
   ''9'' \<notin> set (map msg_id two_messages) \<and>
   messagesReducer two_messages (SET_CITATIONS ''9'' (Some (JArr []))) = two_messages"
proof -
  let ?a = "APPEND_TOKEN ''8'' ''Hi''"
  let ?ch = "\<lambda>msg::Message. msg\<lparr>content := content msg @ ''Hi''\<rparr>"
  let ?b = "SET_CITATIONS ''9'' (Some (JArr []))"
  let ?cb = "\<lambda>msg::Message. msg\<lparr>citations := Some (JArr [])\<rparr>"
  have h: "(?a = APPEND_TOKEN ''8'' ''Hi'' \<and> ?ch = (\<lambda>msg. msg\<lparr>content := content msg @ ''Hi''\<rparr>)) \<or>
      (?a = SET_CITATIONS ''8'' None \<and> ?ch = (\<lambda>msg. msg\<lparr>citations := None\<rparr>))"
    by simp
  have h': "(?b = APPEND_TOKEN ''9'' [] \<and> ?cb = (\<lambda>msg. msg\<lparr>content := content msg @ []\<rparr>)) \<or>
      (?b = SET_CITATIONS ''9'' (Some (JArr [])) \<and> ?cb = (\<lambda>msg. msg\<lparr>citations := Some (JArr [])\<rparr>))"
    by simp
  have i: "1 < length two_messages"
    by (simp add: two_messages_def)
  have d: "distinct (map msg_id two_messages)"
    by (simp add: two_messages_def)
  have c: "messagesReducer two_messages ?a ! 1 \<noteq> two_messages ! 1"
    by (simp add: two_messages_def)
  have n: "''9'' \<notin> set (map msg_id two_messages)"
    by (simp add: two_messages_def)
  note t = messagesReducer_frame [where action = ?a and messageId = "''8''" and token = "''Hi''"
      and change = ?ch and cs = None and state = two_messages, THEN mp, OF h]
  note u = messagesReducer_frame [where action = ?b and messageId = "''9''" and token = "[]"
      and change = ?cb and cs = "Some (JArr [])" and state = two_messages, THEN mp, OF h']
  note t1 = t [THEN conjunct1]
  note t2 = t [THEN conjunct2, THEN conjunct1]
  note t3 = t [THEN conjunct2, THEN conjunct2, THEN conjunct1, THEN spec, THEN mp, OF i]
  note t4 = t [THEN conjunct2, THEN conjunct2, THEN conjunct2, THEN conjunct1, THEN mp, OF d,
      THEN spec, THEN spec, THEN mp, OF conjI [OF i conjI [OF i conjI [OF c c]]]]
  note u5 = u [THEN conjunct2, THEN conjunct2, THEN conjunct2, THEN conjunct2, THEN mp, OF n]
  show ?thesis
    by (intro conjI t1 t2 i t3 d c t4 n u5)
qed

text \<open>
  The claim as written fails on a list in which two messages share an id: one
  \<^verbatim>\<open>APPEND_TOKEN\<close> changes both.
\<close>

theorem messagesReducer_twins_counterexample:
  "messagesReducer twin_messages (APPEND_TOKEN ''7'' ''x'') ! 0 \<noteq> twin_messages ! 0 \<and>
   messagesReducer twin_messages (APPEND_TOKEN ''7'' ''x'') ! 1 \<noteq> twin_messages ! 1"
  by (simp add: twin_messages_def)

subsection \<open>handleSend: the error path\<close>

text \<open>
  C3. When the chat stream ends with a throw and Stop has not been pressed, the catch
  block dispatches one \<^verbatim>\<open>APPEND_TOKEN\<close> for the assistant message with the text
  \<^verbatim>\<open>[Error: <message>]\<close>: the assistant message, which is the last one, gets exactly
  that text appended to the content it had when the stream threw, its citations stay
  as they were, and the error banner is set to the message.
\<close>

theorem handleSend_error_token:
  "handleSend_begin st clk = Some (st1, assistantId) \<and>
   streamChat P fr = (events, Threw err) \<and>
   (stop = None \<or> stop = Some k \<and> length events < k) \<and>
   before = foldl (handleSend_event assistantId) st1 events \<and>
   message = (case err of Error m \<Rightarrow> m | NonError \<Rightarrow> ''Failed to get response'') \<longrightarrow>
     messages (handleSend P st clk fr stop) =
       messagesReducer (messages before) (APPEND_TOKEN assistantId (''[Error: '' @ message @ '']'')) \<and>
     msg_id (last (messages before)) = assistantId \<and>
     role (last (messages before)) = Assistant \<and>
     content (last (messages (handleSend P st clk fr stop))) =
       content (last (messages before)) @ ''[Error: '' @ message @ '']'' \<and>
     citations (last (messages (handleSend P st clk fr stop))) =
       citations (last (messages before)) \<and>
     error (handleSend P st clk fr stop) = Some message"
proof (intro impI, elim conjE)
  assume b: "handleSend_begin st clk = Some (st1, assistantId)"
    and s: "streamChat P fr = (events, Threw err)"
    and n: "stop = None \<or> stop = Some k \<and> length events < k"
    and bf: "before = foldl (handleSend_event assistantId) st1 events"
    and m: "message = (case err of Error m \<Rightarrow> m | NonError \<Rightarrow> ''Failed to get response'')"
  note st1 = handleSend_begin_last [OF b]
  have na: "\<not> signal_aborted before"
    using st1 by (simp add: bf foldl_event_fields)
  have fin: "handleSend P st clk fr stop =
      handleSend_finally (handleSend_catch assistantId before err)"
    using n by (auto simp: handleSend_def b s bf Let_def)
  have lst: "messages before \<noteq> [] \<and> msg_id (last (messages before)) = assistantId \<and>
      role (last (messages before)) = Assistant"
    using event_loop_last [of st1 assistantId events] st1 by (simp add: bf)
  have msgs: "messages (handleSend P st clk fr stop) =
      messagesReducer (messages before) (APPEND_TOKEN assistantId (''[Error: '' @ message @ '']''))"
    using na by (simp add: fin handleSend_finally_def handleSend_catch_def Let_def m)
  have err: "error (handleSend P st clk fr stop) = Some message"
    using na by (simp add: fin handleSend_finally_def handleSend_catch_def Let_def m)
  have ct: "content (last (messages (handleSend P st clk fr stop))) =
      content (last (messages before)) @ ''[Error: '' @ message @ '']''"
    using lst by (simp add: msgs last_map)
  have ci: "citations (last (messages (handleSend P st clk fr stop))) =
      citations (last (messages before))"
    using lst by (simp add: msgs last_map)
  from msgs lst ct ci err
  show "messages (handleSend P st clk fr stop) =
       messagesReducer (messages before) (APPEND_TOKEN assistantId (''[Error: '' @ message @ '']'')) \<and>
     msg_id (last (messages before)) = assistantId \<and>
     role (last (messages before)) = Assistant \<and>
     content (last (messages (handleSend P st clk fr stop))) =
       content (last (messages before)) @ ''[Error: '' @ message @ '']'' \<and>
     citations (last (messages (handleSend P st clk fr stop))) =
       citations (last (messages before)) \<and>
     error (handleSend P st clk fr stop) = Some message"
    by blast
qed

theorem handleSend_error_token_witness:
  "handleSend_begin asking clock = Some (asked, ''42'') \<and>
   streamChat JSON_parse_fragment (Response failing_chat) =
     (failing_events, Threw (Error ''network error'')) \<and>
   messages (handleSend JSON_parse_fragment asking clock (Response failing_chat) None) =
     messagesReducer (messages (foldl (handleSend_event ''42'') asked failing_events))
       (APPEND_TOKEN ''42'' (''[Error: '' @ ''network error'' @ '']'')) \<and>
   msg_id (last (messages (foldl (handleSend_event ''42'') asked failing_events))) = ''42'' \<and>
   role (last (messages (foldl (handleSend_event ''42'') asked failing_events))) = Assistant \<and>
   content (last (messages
       (handleSend JSON_parse_fragment asking clock (Response failing_chat) None))) =
     content (last (messages (foldl (handleSend_event ''42'') asked failing_events))) @
       ''[Error: '' @ ''network error'' @ '']'' \<and>
   citations (last (messages
       (handleSend JSON_parse_fragment asking clock (Response failing_chat) None))) =
     citations (last (messages (foldl (handleSend_event ''42'') asked failing_events))) \<and>
   error (handleSend JSON_parse_fragment asking clock (Response failing_chat) None) =
     Some ''network error''"
proof -
  have b: "handleSend_begin asking clock = Some (asked, ''42'')"
    by code_simp
  have s: "streamChat JSON_parse_fragment (Response failing_chat) =
      (failing_events, Threw (Error ''network error''))"
    by code_simp
  have n: "(None :: nat option) = None \<or> None = Some (0::nat) \<and> length failing_events < 0"
    by simp
  have bf: "foldl (handleSend_event ''42'') asked failing_events =
      foldl (handleSend_event ''42'') asked failing_events"
    by (rule refl)
  have m: "''network error'' =
      (case Error ''network error'' of Error m \<Rightarrow> m | NonError \<Rightarrow> ''Failed to get response'')"
    by simp
  note t = handleSend_error_token [where st = asking and clk = clock and ?st1.0 = asked
      and assistantId = "''42''" and P = JSON_parse_fragment and fr = "Response failing_chat"
      and events = failing_events and err = "Error ''network error''" and stop = None and k = 0
      and before = "foldl (handleSend_event ''42'') asked failing_events"
      and message = "''network error''",
      THEN mp, OF conjI [OF b conjI [OF s conjI [OF n conjI [OF bf m]]]]]
  show ?thesis
    by (intro conjI b s t [THEN conjunct1] t [THEN conjunct2, THEN conjunct1]
        t [THEN conjunct2, THEN conjunct2, THEN conjunct1]
        t [THEN conjunct2, THEN conjunct2, THEN conjunct2, THEN conjunct1]
        t [THEN conjunct2, THEN conjunct2, THEN conjunct2, THEN conjunct2, THEN conjunct1]
        t [THEN conjunct2, THEN conjunct2, THEN conjunct2, THEN conjunct2, THEN conjunct2])
qed

subsection \<open>handleSend: cancellation\<close>

text \<open>
  C6. When the user has pressed Stop during the stream and the stream then throws, the
  messages are those built from the events received, as if Stop had not been pressed:
  the assistant message keeps the text of every token received, no error token is
  appended and the error banner stays unset.
\<close>

theorem handleSend_cancelled:
  "handleSend_begin st clk = Some (st1, assistantId) \<and>
   streamChat P fr = (events, Threw err) \<and>
   stop = Some k \<and> k \<le> length events \<longrightarrow>
     messages (handleSend P st clk fr stop) =
       messages (foldl (handleSend_event assistantId) st1 events) \<and>
     msg_id (last (messages (handleSend P st clk fr stop))) = assistantId \<and>
     content (last (messages (handleSend P st clk fr stop))) =
       concat (map (\<lambda>ev. js_String_opt (js_prop ev ''content''))
         (filter (\<lambda>ev. event_type ev = Some (JStr ''token'')) events)) \<and>
     error (handleSend P st clk fr stop) = None"
proof (intro impI, elim conjE)
  assume b: "handleSend_begin st clk = Some (st1, assistantId)"
    and s: "streamChat P fr = (events, Threw err)"
    and k: "stop = Some k" "k \<le> length events"
  note st1 = handleSend_begin_last [OF b]
  let ?f = "handleSend_event assistantId"
  let ?mid = "handleStop (foldl ?f st1 (take k events))"
  let ?st2 = "foldl ?f ?mid (drop k events)"
  have "abortController (foldl ?f st1 (take k events))"
    using st1 by (simp add: foldl_event_fields)
  then have "signal_aborted ?mid"
    by (simp add: handleStop_def)
  then have ab: "signal_aborted ?st2"
    by (simp add: foldl_event_fields)
  have fin: "handleSend P st clk fr stop = handleSend_finally ?st2"
    using k ab by (simp add: handleSend_def b s Let_def handleSend_catch_def)
  have msgs: "messages (handleSend P st clk fr stop) = messages (foldl ?f st1 events)"
    by (simp add: fin handleSend_finally_def stopped_loop_messages)
  have err: "error (handleSend P st clk fr stop) = None"
    using st1 by (simp add: fin handleSend_finally_def foldl_event_fields)
  from msgs err event_loop_last [of st1 assistantId events] st1
  show "messages (handleSend P st clk fr stop) =
       messages (foldl (handleSend_event assistantId) st1 events) \<and>
     msg_id (last (messages (handleSend P st clk fr stop))) = assistantId \<and>
     content (last (messages (handleSend P st clk fr stop))) =
       concat (map (\<lambda>ev. js_String_opt (js_prop ev ''content''))
         (filter (\<lambda>ev. event_type ev = Some (JStr ''token'')) events)) \<and>
     error (handleSend P st clk fr stop) = None"
    by simp
qed

theorem handleSend_cancelled_witness:
  "handleSend_begin asking clock = Some (asked, ''42'') \<and>
   streamChat JSON_parse_fragment (Response failing_chat) =
     (failing_events, Threw (Error ''network error'')) \<and>
   (1::nat) \<le> length failing_events \<and>
   messages (handleSend JSON_parse_fragment asking clock (Response failing_chat) (Some 1)) =
     messages (foldl (handleSend_event ''42'') asked failing_events) \<and>
   msg_id (last (messages
       (handleSend JSON_parse_fragment asking clock (Response failing_chat) (Some 1)))) = ''42'' \<and>
   content (last (messages
       (handleSend JSON_parse_fragment asking clock (Response failing_chat) (Some 1)))) =
     concat (map (\<lambda>ev. js_String_opt (js_prop ev ''content''))
       (filter (\<lambda>ev. event_type ev = Some (JStr ''token'')) failing_events)) \<and>
   error (handleSend JSON_parse_fragment asking clock (Response failing_chat) (Some 1)) = None"
proof -
  have b: "handleSend_begin asking clock = Some (asked, ''42'')"
    by code_simp
  have s: "streamChat JSON_parse_fragment (Response failing_chat) =
      (failing_events, Threw (Error ''network error''))"
    by code_simp
  have k: "Some (1::nat) = Some 1 \<and> (1::nat) \<le> length failing_events"
    by (simp add: failing_events_def)
  note t = handleSend_cancelled [where st = asking and clk = clock and ?st1.0 = asked
      and assistantId = "''42''" and P = JSON_parse_fragment and fr = "Response failing_chat"
      and events = failing_events and err = "Error ''network error''" and stop = "Some 1"
      and k = 1, THEN mp, OF conjI [OF b conjI [OF s k]]]
  show ?thesis
    by (intro conjI b s k [THEN conjunct2] t [THEN conjunct1]
        t [THEN conjunct2, THEN conjunct1]
        t [THEN conjunct2, THEN conjunct2, THEN conjunct1]
        t [THEN conjunct2, THEN conjunct2, THEN conjunct2])
qed

subsection \<open>Reindex and concurrent retrieval\<close>



end
